theory Spec2Isabelle
  imports Complex_Main "HOL-Library.AList"
begin

section \<open>Python values, exceptions and strings\<close>

text \<open>
  The program under study, \<^verbatim>\<open>main_otel.py\<close>, reads the history of a GitHub Actions
  workflow through PyGithub and re-emits it as OpenTelemetry spans (run, job, step).
  The embedding below follows the source function by function. Objects of the two
  libraries are records holding the fields the source reads; a call that may raise is a
  value of a sum type, \<open>Inl\<close> carrying the exception.
\<close>

text \<open>Dynamically typed values: what \<^verbatim>\<open>kwargs.get\<close> and \<^verbatim>\<open>job.labels\<close> may hold.\<close>

datatype pyval =
    PNone
  | PBool bool
  | PInt int
  | PStr string
  | PList "pyval list"
  | PTuple "pyval list"

text \<open>
  An exception raised by the API client is an instance of (a subclass of) \<^verbatim>\<open>Exception\<close>;
  it is identified by the text \<^verbatim>\<open>str(e)\<close>. What a function of the program can raise is
  a \<open>py_error\<close>: \<^verbatim>\<open>AttributeError\<close> (a method called on \<^verbatim>\<open>None\<close>), \<^verbatim>\<open>TypeError\<close>
  (\<^verbatim>\<open>str.join\<close> on a non-string item), \<^verbatim>\<open>SystemExit\<close> (\<^verbatim>\<open>sys.exit()\<close>), or an exception
  of the client passed on.
\<close>

datatype exception = Exception (str: string)

datatype py_error = AttributeError | TypeError | SystemExit | Raised exception

text \<open>Truth value testing, as \<^verbatim>\<open>if x:\<close> does it.\<close>

fun truthy :: "pyval \<Rightarrow> bool" where
  "truthy PNone = False"
| "truthy (PBool b) = b"
| "truthy (PInt i) = (i \<noteq> 0)"
| "truthy (PStr s) = (s \<noteq> [])"
| "truthy (PList xs) = (xs \<noteq> [])"
| "truthy (PTuple xs) = (xs \<noteq> [])"

text \<open>\<^verbatim>\<open>isinstance(v, (list, tuple))\<close>.\<close>

fun isinstance_list_tuple :: "pyval \<Rightarrow> bool" where
  "isinstance_list_tuple (PList xs) = True"
| "isinstance_list_tuple (PTuple xs) = True"
| "isinstance_list_tuple v = False"

text \<open>
  \<^verbatim>\<open>"".join(v)\<close>: the items of a list or tuple must all be strings, a string is joined
  character by character, anything else is not iterable.
\<close>

fun str_items :: "pyval list \<Rightarrow> string list option" where
  "str_items [] = Some []"
| "str_items (PStr s # vs) = map_option ((#) s) (str_items vs)"
| "str_items (v # vs) = None"

fun join_empty :: "pyval \<Rightarrow> py_error + string" where
  "join_empty (PList vs) = (case str_items vs of None \<Rightarrow> Inl TypeError | Some ss \<Rightarrow> Inr (concat ss))"
| "join_empty (PTuple vs) = (case str_items vs of None \<Rightarrow> Inl TypeError | Some ss \<Rightarrow> Inr (concat ss))"
| "join_empty (PStr s) = Inr s"
| "join_empty v = Inl TypeError"

text \<open>
  \<^verbatim>\<open>s.split(c)\<close> for a separator of one character. The result is never empty, so the
  indices \<^verbatim>\<open>[-1]\<close> and \<^verbatim>\<open>[0]\<close> the source applies to it (\<open>last\<close> and \<open>hd\<close> below) are
  always in range.
\<close>

fun split_str :: "char \<Rightarrow> string \<Rightarrow> string list" where
  "split_str c [] = [[]]"
| "split_str c (x # xs) =
     (if x = c then [] # split_str c xs
      else (case split_str c xs of [] \<Rightarrow> [[x]] | w # ws \<Rightarrow> (x # w) # ws))"

text \<open>An integer inside an f-string: its decimal digits, with a minus sign when negative.\<close>

definition digit_char :: "int \<Rightarrow> char" where
  "digit_char d = ''0123456789'' ! nat d"

function str_digits :: "int \<Rightarrow> string" where
  "str_digits n = (if n < 10 then [digit_char n] else str_digits (n div 10) @ [digit_char (n mod 10)])"
  by pat_completeness auto
termination
  by (relation "measure nat") auto

declare str_digits.simps [simp del]

definition str_int :: "int \<Rightarrow> string" where
  "str_int i = (if i < 0 then CHR ''-'' # str_digits (- i) else str_digits i)"

text \<open>\<^verbatim>\<open>f"{start}"\<close> for a value that is a string or \<^verbatim>\<open>None\<close>.\<close>

definition str_opt :: "string option \<Rightarrow> string" where
  "str_opt s = (case s of None \<Rightarrow> ''None'' | Some t \<Rightarrow> t)"

section \<open>Floats and time stamps\<close>

text \<open>
  A Python float is an IEEE 754 binary64 number. A finite one is a rational, and the
  result of an operation is the exact result rounded to 53 significant bits, ties to
  even. \<open>round_double\<close> is that rounding, for the normal range (the time stamps of this
  program are far from overflow and from subnormal numbers). \<open>float_exponent x\<close> is the
  \<open>e\<close> with \<open>2 ^ e \<le> |x| < 2 ^ (e + 1)\<close>.
\<close>

function ilog2 :: "int \<Rightarrow> int" where
  "ilog2 n = (if n < 2 then 0 else ilog2 (n div 2) + 1)"
  by pat_completeness auto
termination
  by (relation "measure nat") auto

declare ilog2.simps [simp del]

definition clog2 :: "int \<Rightarrow> int" where
  "clog2 n = (if n \<le> 1 then 0 else ilog2 (n - 1) + 1)"

definition float_exponent :: "rat \<Rightarrow> int" where
  "float_exponent x =
     (if 1 \<le> \<bar>x\<bar> then ilog2 \<lfloor>\<bar>x\<bar>\<rfloor> else - clog2 \<lceil>1 / \<bar>x\<bar>\<rceil>)"

definition round_half_even :: "rat \<Rightarrow> int" where
  "round_half_even x =
     (let f = \<lfloor>x\<rfloor>; d = x - of_int f
      in if d < 1 / 2 then f
         else if 1 / 2 < d then f + 1
         else if even f then f else f + 1)"

definition round_double :: "rat \<Rightarrow> rat" where
  "round_double x =
     (if x = 0 then 0
      else let u = 2 powi (float_exponent x - 52)
           in of_int (round_half_even (x / u)) * u)"

text \<open>\<^verbatim>\<open>a / b\<close> on two ints (correctly rounded), \<^verbatim>\<open>x * y\<close> on two floats, \<^verbatim>\<open>int(x)\<close>.\<close>

definition true_div :: "int \<Rightarrow> int \<Rightarrow> rat" where
  "true_div a b = round_double (of_int a / of_int b)"

definition float_mul :: "rat \<Rightarrow> rat \<Rightarrow> rat" where
  "float_mul x y = round_double (x * y)"

definition int_of_float :: "rat \<Rightarrow> int" where
  "int_of_float x = (if 0 \<le> x then \<lfloor>x\<rfloor> else \<lceil>x\<rceil>)"

text \<open>
  A timezone-aware \<^verbatim>\<open>datetime\<close>, as PyGithub parses it from the API: a point in time
  with a resolution of one microsecond, identified by its distance from the epoch. Its
  method \<^verbatim>\<open>timestamp()\<close> is \<^verbatim>\<open>(self - EPOCH).total_seconds()\<close>, the microseconds divided
  by \<^verbatim>\<open>10**6\<close> as a float.
\<close>

datatype datetime = Datetime (epoch_us: int)

definition timestamp :: "datetime \<Rightarrow> rat" where
  "timestamp t = true_div (epoch_us t) 1000000"

text \<open>
  \<^verbatim>\<open>
  def convert_time(time):
      return int(time.timestamp() * 1e9)
  \<close>
  On \<^verbatim>\<open>None\<close> the attribute lookup \<^verbatim>\<open>time.timestamp\<close> raises \<^verbatim>\<open>AttributeError\<close>.
\<close>

definition convert_time :: "datetime option \<Rightarrow> py_error + int" where
  "convert_time time =
     (case time of
        None \<Rightarrow> Inl AttributeError
      | Some t \<Rightarrow> Inr (int_of_float (float_mul (timestamp t) 1000000000)))"

section \<open>The objects of the GitHub client\<close>

text \<open>
  Collections the client returns (\<^verbatim>\<open>workflow.get_runs()\<close>, \<^verbatim>\<open>run.jobs()\<close>,
  \<^verbatim>\<open>job.steps\<close>, the annotations of a check run) are the lists of their items, as in the
  program's test suite. The calls that may raise are the two that \<^verbatim>\<open>fetch_annotations\<close>
  guards with \<^verbatim>\<open>try\<close> and the look-up of the authenticated user in \<^verbatim>\<open>get_args\<close>.
\<close>

record annotation =
  ann_message :: string
  ann_annotation_level :: string
  ann_title :: string

record check_run =
  get_annotations :: "exception + annotation list"

record repository =
  repo_name :: string
  get_check_run :: "int \<Rightarrow> exception + check_run"

record workflow_step =
  step_name :: string
  step_number :: int
  step_started_at :: "datetime option"
  step_completed_at :: "datetime option"
  step_conclusion :: "string option"

record workflow_job =
  job_id :: int
  job_run_id :: int
  job_name :: string
  job_labels :: pyval
  job_run_attempt :: "int option"
  job_runner_group_id :: "int option"
  job_runner_group_name :: "string option"
  job_runner_name :: "string option"
  job_started_at :: "datetime option"
  job_completed_at :: "datetime option"
  job_created_at :: "datetime option"
  job_conclusion :: "string option"
  job_steps :: "workflow_step list"

record workflow_run =
  run_id :: int
  run_number :: int
  run_attempt :: "int option"
  run_html_url :: string
  run_event :: string
  run_name :: "string option"
  run_started_at :: "datetime option"
  run_updated_at :: "datetime option"
  run_status :: string
  run_path :: string
  run_conclusion :: "string option"
  run_jobs :: "workflow_job list"

text \<open>\<open>get_runs w None\<close> is \<^verbatim>\<open>w.get_runs()\<close>, \<open>get_runs w (Some c)\<close> is \<^verbatim>\<open>w.get_runs(created=c)\<close>.\<close>

record workflow =
  workflow_id :: int
  workflow_name :: string
  get_runs :: "string option \<Rightarrow> workflow_run list"

record authenticated_user =
  login :: "exception + string"

record github =
  get_user :: "exception + authenticated_user"

section \<open>Spans and the tracer\<close>

text \<open>
  A span records what the source does to it: the name and start time it was created
  with, every \<^verbatim>\<open>set_attribute\<close>, \<^verbatim>\<open>add_event\<close> and \<^verbatim>\<open>set_status\<close>, and the end time
  once \<^verbatim>\<open>end\<close> is called. Attributes are kept in the order of their first setting; a value
  passed as \<^verbatim>\<open>None\<close> is recorded as \<open>ANone\<close>.
\<close>

datatype attr_value = ANone | ABool bool | AInt int | AFloat rat | AStr string

datatype span_status = StatusUnset | StatusError string

record span_event =
  event_name :: "string option"
  event_attributes :: "(string \<times> attr_value) list"
  event_timestamp :: int

record span =
  span_id :: nat
  parent_id :: "nat option"
  span_name :: string
  start_time :: int
  end_time :: "int option"
  attributes :: "(string \<times> attr_value) list"
  events :: "span_event list"
  status :: span_status

text \<open>
  The tracer hands out span identities and holds the span that is current in the ambient
  context. \<^verbatim>\<open>start_as_current_span\<close> followed by \<^verbatim>\<open>__enter__\<close> creates a span (its parent
  is the span of the context given, or the current one) and makes it current;
  \<^verbatim>\<open>__exit__\<close> puts back the span that was current before.
\<close>

record tracer =
  next_span_id :: nat
  current_span :: "nat option"

definition start_as_current_span ::
  "tracer \<Rightarrow> string \<Rightarrow> int \<Rightarrow> span option \<Rightarrow> span \<times> tracer" where
  "start_as_current_span tr name start ctx =
     (\<lparr>span_id = next_span_id tr,
       parent_id = (case ctx of None \<Rightarrow> current_span tr | Some p \<Rightarrow> Some (span_id p)),
       span_name = name, start_time = start, end_time = None,
       attributes = [], events = [], status = StatusUnset\<rparr>,
      \<lparr>next_span_id = Suc (next_span_id tr), current_span = Some (next_span_id tr)\<rparr>)"

definition context_exit :: "tracer \<Rightarrow> nat option \<Rightarrow> tracer" where
  "context_exit tr outer = tr\<lparr>current_span := outer\<rparr>"

definition set_attribute :: "span \<Rightarrow> string \<Rightarrow> attr_value \<Rightarrow> span" where
  "set_attribute s k v = s\<lparr>attributes := AList.update k v (attributes s)\<rparr>"

definition set_status :: "span \<Rightarrow> string \<Rightarrow> span" where
  "set_status s description = s\<lparr>status := StatusError description\<rparr>"

definition add_event ::
  "span \<Rightarrow> string option \<Rightarrow> (string \<times> attr_value) list \<Rightarrow> int \<Rightarrow> span" where
  "add_event s name attrs ts =
     s\<lparr>events := events s @ [\<lparr>event_name = name, event_attributes = attrs, event_timestamp = ts\<rparr>]\<rparr>"

definition span_end :: "span \<Rightarrow> int \<Rightarrow> span" where
  "span_end s t = s\<lparr>end_time := Some t\<rparr>"

definition attr_opt_str :: "string option \<Rightarrow> attr_value" where
  "attr_opt_str s = (case s of None \<Rightarrow> ANone | Some t \<Rightarrow> AStr t)"

definition attr_opt_int :: "int option \<Rightarrow> attr_value" where
  "attr_opt_int i = (case i of None \<Rightarrow> ANone | Some n \<Rightarrow> AInt n)"

section \<open>The program\<close>

text \<open>
  What the module reads from its environment: the identifier of this execution
  (\<^verbatim>\<open>str(uuid.uuid4())\<close>, drawn once) and the wall clock, \<open>today i\<close> being the value of
  \<^verbatim>\<open>str(datetime.today())\<close> while the run at position \<open>i\<close> is processed. Output printed
  to the terminal is left out.
\<close>

record env =
  execution_id :: string
  today :: "nat \<Rightarrow> string"

subsection \<open>\<^verbatim>\<open>get_args\<close>\<close>

text \<open>
  \<open>kwargs_get kw k\<close> is \<^verbatim>\<open>kwargs.get(k)\<close>. The function returns, beside its result, the
  calls it made to the client \<^verbatim>\<open>g\<close>, in order; \<^verbatim>\<open>sys.exit()\<close> is the error \<open>SystemExit\<close>.
\<close>

definition kwargs_get :: "(string \<rightharpoonup> pyval) \<Rightarrow> string \<Rightarrow> pyval" where
  "kwargs_get kwargs k = (case kwargs k of None \<Rightarrow> PNone | Some v \<Rightarrow> v)"

datatype api_call = GetUser | GetLogin

definition default_org :: "github \<Rightarrow> api_call list \<times> (py_error + pyval)" where
  "default_org g =
     (case get_user g of
        Inl e \<Rightarrow> ([GetUser], Inl (Raised e))
      | Inr user \<Rightarrow>
          (case login user of
             Inl e \<Rightarrow> ([GetUser, GetLogin], Inl (Raised e))
           | Inr name \<Rightarrow> ([GetUser, GetLogin], Inr (PStr name))))"

definition get_args ::
  "github \<Rightarrow> (string \<rightharpoonup> pyval) \<Rightarrow>
     api_call list \<times> (py_error + pyval \<times> pyval \<times> pyval \<times> pyval \<times> pyval \<times> bool)" where
  "get_args g kwargs =
     (let repo_name = kwargs_get kwargs ''repo'';
          workflow_name = kwargs_get kwargs ''workflow''
      in if repo_name = PNone \<or> workflow_name = PNone then ([], Inl SystemExit)
         else
           (case (if kwargs_get kwargs ''org'' = PNone then default_org g
                  else ([], Inr (kwargs_get kwargs ''org''))) of
              (calls, Inl e) \<Rightarrow> (calls, Inl e)
            | (calls, Inr org) \<Rightarrow>
                (let start = kwargs_get kwargs ''start'';
                     end' = kwargs_get kwargs ''end''
                 in if (start = PNone \<and> end' \<noteq> PNone) \<or> (start \<noteq> PNone \<and> end' = PNone)
                    then (calls, Inl SystemExit)
                    else (calls,
                          Inr (org, repo_name, workflow_name, start, end',
                               truthy (kwargs_get kwargs ''skipsteps''))))))"

subsection \<open>\<^verbatim>\<open>fetch_annotations\<close>\<close>

text \<open>
  \<^verbatim>\<open>
  try:
      check_run = repo.get_check_run(job_id)
      annotations = check_run.get_annotations()
      return annotations, None
  except Exception as e:
      return [], str(e)
  \<close>
\<close>

definition fetch_annotations :: "repository \<Rightarrow> int \<Rightarrow> annotation list \<times> string option" where
  "fetch_annotations repo job =
     (case get_check_run repo job of
        Inl e \<Rightarrow> ([], Some (str e))
      | Inr check \<Rightarrow>
          (case get_annotations check of
             Inl e \<Rightarrow> ([], Some (str e))
           | Inr annotations \<Rightarrow> (annotations, None)))"

subsection \<open>\<^verbatim>\<open>process_runs\<close>\<close>

text \<open>The name of a run's span: \<^verbatim>\<open>run.path.split("/")[-1].split(".")[0]\<close>.\<close>

definition run_display_name :: "string \<Rightarrow> string" where
  "run_display_name path = hd (split_str CHR ''.'' (last (split_str CHR ''/'' path)))"

text \<open>
  The body of the loop over the runs, in two parts: \<open>run_attributes\<close> is the block from the
  first \<^verbatim>\<open>set_attribute\<close> to the \<^verbatim>\<open>if run.conclusion == "failure"\<close>, \<open>process_run\<close> the
  whole body around it. The span is returned as it is after the last statement of the
  body (the list \<^verbatim>\<open>run_spans\<close> holds the object, so it sees the call of \<^verbatim>\<open>end\<close> that
  follows \<^verbatim>\<open>append\<close>). \<^verbatim>\<open>if run_completed_at:\<close> tests the truth value of an int or
  \<^verbatim>\<open>None\<close>.
\<close>

definition run_failed :: "workflow_run \<Rightarrow> string" where
  "run_failed run = ''Run '' @ str_int (run_number run) @ '' failed''"

definition run_attributes ::
  "env \<Rightarrow> workflow \<Rightarrow> nat \<Rightarrow> workflow_run \<Rightarrow> int \<Rightarrow> int option \<Rightarrow> span \<Rightarrow> span" where
  "run_attributes ev wflow i run run_start_time run_completed_at s =
     (let s = set_attribute s ''execution.id'' (AStr (execution_id ev));
          s = set_attribute s ''workflow.id'' (AInt (workflow_id wflow));
          s = set_attribute s ''run.id'' (AInt (run_id run));
          s = set_attribute s ''run.run_number'' (AInt (run_number run));
          s = (case run_attempt run of
                 None \<Rightarrow> set_attribute s ''run.run_attempt'' (AInt 1)
               | Some a \<Rightarrow> set_attribute s ''run.run_attempt'' (AInt a));
          s = set_attribute s ''run.html_url'' (AStr (run_html_url run));
          s = set_attribute s ''run.event'' (AStr (run_event run));
          s = set_attribute s ''run.name'' (attr_opt_str (run_name run));
          s = set_attribute s ''run.run_started_at'' (AInt run_start_time);
          s = set_attribute s ''run.updated_at'' (attr_opt_int run_completed_at);
          s = set_attribute s ''my_date'' (AStr (today ev i));
          s = set_attribute s ''run.conclusion'' (attr_opt_str (run_conclusion run))
      in if run_conclusion run = Some ''failure''
         then set_attribute
                (set_attribute (set_status s (run_failed run)) ''error'' (ABool True))
                ''error.message'' (AStr (run_failed run))
         else s)"

definition process_run ::
  "env \<Rightarrow> workflow \<Rightarrow> nat \<Rightarrow> tracer \<Rightarrow> workflow_run \<Rightarrow> py_error + span \<times> tracer" where
  "process_run ev wflow i tr run =
     (case convert_time (run_started_at run) of
        Inl e \<Rightarrow> Inl e
      | Inr run_start_time \<Rightarrow>
     (case (if run_status run = ''completed''
            then (case convert_time (run_updated_at run) of
                    Inl e \<Rightarrow> Inl e | Inr t \<Rightarrow> Inr (Some t))
            else Inr None) of
        Inl e \<Rightarrow> Inl e
      | Inr run_completed_at \<Rightarrow>
          (let outer = current_span tr;
               (s, tr) = start_as_current_span tr (run_display_name (run_path run))
                           run_start_time None;
               s = run_attributes ev wflow i run run_start_time run_completed_at s
           in (case run_completed_at of
                 None \<Rightarrow> Inr (s, tr)
               | Some t \<Rightarrow>
                   if t \<noteq> 0 then Inr (span_end s t, context_exit tr outer)
                   else Inr (s, tr)))))"

fun process_runs_loop ::
  "env \<Rightarrow> workflow \<Rightarrow> nat \<Rightarrow> tracer \<Rightarrow> workflow_run list \<Rightarrow> py_error + span list \<times> tracer" where
  "process_runs_loop ev wflow i tr [] = Inr ([], tr)"
| "process_runs_loop ev wflow i tr (run # runs) =
     (case process_run ev wflow i tr run of
        Inl e \<Rightarrow> Inl e
      | Inr (s, tr') \<Rightarrow>
          (case process_runs_loop ev wflow (Suc i) tr' runs of
             Inl e \<Rightarrow> Inl e
           | Inr (ss, tr'') \<Rightarrow> Inr (s # ss, tr'')))"

definition process_runs ::
  "env \<Rightarrow> tracer \<Rightarrow> workflow \<Rightarrow> string option \<Rightarrow> string option \<Rightarrow>
     py_error + workflow_run list \<times> span list \<times> tracer" where
  "process_runs ev tr wflow start end' =
     (let runs = (if start = None \<and> end' = None then get_runs wflow None
                  else get_runs wflow (Some (str_opt start @ ''..'' @ str_opt end')))
      in case process_runs_loop ev wflow 0 tr runs of
           Inl e \<Rightarrow> Inl e
         | Inr (run_spans, tr') \<Rightarrow> Inr (runs, run_spans, tr'))"

subsection \<open>\<^verbatim>\<open>process_jobs\<close>\<close>

text \<open>
  The normalisation of \<^verbatim>\<open>job.labels\<close>:
  \<^verbatim>\<open>
  if job.labels is None:
      job_labels = []
  else:
      if isinstance(job.labels, (list, tuple)):
          job_labels = job.labels
      else:
          job_labels = [job.labels]
  \<close>
\<close>

definition normalized_labels :: "pyval \<Rightarrow> pyval" where
  "normalized_labels labels =
     (if labels = PNone then PList []
      else if isinstance_list_tuple labels then labels
      else PList [labels])"

definition job_failed :: "workflow_job \<Rightarrow> string" where
  "job_failed job = ''Job '' @ job_name job @ '' failed''"

definition annotation_event :: "workflow_job \<Rightarrow> int \<Rightarrow> span \<Rightarrow> annotation \<Rightarrow> span" where
  "annotation_event job job_started s item =
     add_event s (job_conclusion job)
       [(''message'', AStr (ann_message item)),
        (''annotation_level'', AStr (ann_annotation_level item)),
        (''title'', AStr (ann_title item))]
       job_started"

text \<open>
  The body of the inner loop, for one job of a run whose span is \<open>parent_span\<close>;
  \<open>job_attributes\<close> is its block from \<^verbatim>\<open>set_attribute("execution.id", ...)\<close> to the
  \<^verbatim>\<open>if job.conclusion == "failure"\<close>. \<^verbatim>\<open>if error:\<close> tests the truth value of a string or
  \<^verbatim>\<open>None\<close>.
\<close>

definition job_attributes ::
  "env \<Rightarrow> repository \<Rightarrow> workflow_job \<Rightarrow> int \<Rightarrow> int \<Rightarrow> int \<Rightarrow> rat \<Rightarrow> span \<Rightarrow> span" where
  "job_attributes ev repo job started completed created queue_time s =
     (let s = set_attribute s ''execution.id'' (AStr (execution_id ev));
          s = set_attribute s ''job.id'' (AInt (job_id job));
          s = set_attribute s ''job.run_id'' (AInt (job_run_id job));
          s = (case job_run_attempt job of
                 None \<Rightarrow> set_attribute s ''job.run_attempt'' (AInt 1)
               | Some a \<Rightarrow> set_attribute s ''job.run_attempt'' (AInt a));
          s = (case job_runner_group_id job of
                 None \<Rightarrow> s
               | Some gid \<Rightarrow> set_attribute s ''job.runner_group_id'' (AInt gid));
          s = (case job_runner_group_id job of
                 None \<Rightarrow> s
               | Some gid \<Rightarrow>
                   set_attribute s ''job.runner_group_name''
                     (attr_opt_str (job_runner_group_name job)));
          s = (case job_runner_name job of
                 None \<Rightarrow> s
               | Some name \<Rightarrow> set_attribute s ''job.runner_name'' (AStr name));
          s = set_attribute s ''job.started_at'' (AInt started);
          s = set_attribute s ''job.completed_at'' (AInt completed);
          s = set_attribute s ''job.created_at'' (AInt created);
          s = set_attribute s ''job.queue_time_seconds'' (AFloat queue_time);
          (annotations, error) = fetch_annotations repo (job_id job);
          s = (if (case error of None \<Rightarrow> False | Some msg \<Rightarrow> msg \<noteq> []) then s
               else foldl (annotation_event job started) s annotations)
      in if job_conclusion job = Some ''failure''
         then set_attribute
                (set_attribute (set_status s (job_failed job)) ''error'' (ABool True))
                ''error.message'' (AStr (job_failed job))
         else s)"

definition process_job ::
  "env \<Rightarrow> repository \<Rightarrow> span \<Rightarrow> tracer \<Rightarrow> workflow_job \<Rightarrow> py_error + span \<times> tracer" where
  "process_job ev repo parent_span tr job =
     (case convert_time (job_started_at job) of
        Inl e \<Rightarrow> Inl e
      | Inr started \<Rightarrow>
     (case convert_time (job_completed_at job) of
        Inl e \<Rightarrow> Inl e
      | Inr completed \<Rightarrow>
     (case convert_time (job_created_at job) of
        Inl e \<Rightarrow> Inl e
      | Inr created \<Rightarrow>
     (let queue_time = true_div (started - created) 1000000000;
          outer = current_span tr;
          (s, tr) = start_as_current_span tr (job_name job) started (Some parent_span)
      in case join_empty (normalized_labels (job_labels job)) of
           Inl e \<Rightarrow> Inl e
         | Inr runs_on \<Rightarrow>
          (let s = set_attribute s ''runs_on'' (AStr runs_on);
               s = job_attributes ev repo job started completed created queue_time s
           in Inr (span_end s completed, context_exit tr outer))))))"

fun process_run_jobs ::
  "env \<Rightarrow> repository \<Rightarrow> span \<Rightarrow> tracer \<Rightarrow> workflow_job list \<Rightarrow> py_error + span list \<times> tracer" where
  "process_run_jobs ev repo parent_span tr [] = Inr ([], tr)"
| "process_run_jobs ev repo parent_span tr (job # jobs) =
     (case process_job ev repo parent_span tr job of
        Inl e \<Rightarrow> Inl e
      | Inr (s, tr') \<Rightarrow>
          (case process_run_jobs ev repo parent_span tr' jobs of
             Inl e \<Rightarrow> Inl e
           | Inr (ss, tr'') \<Rightarrow> Inr (s # ss, tr'')))"

fun process_jobs_loop ::
  "env \<Rightarrow> repository \<Rightarrow> tracer \<Rightarrow> (workflow_run \<times> span) list \<Rightarrow>
     py_error + workflow_job list \<times> span list \<times> tracer" where
  "process_jobs_loop ev repo tr [] = Inr ([], [], tr)"
| "process_jobs_loop ev repo tr ((run, parent_span) # rest) =
     (case process_run_jobs ev repo parent_span tr (run_jobs run) of
        Inl e \<Rightarrow> Inl e
      | Inr (ss, tr') \<Rightarrow>
          (case process_jobs_loop ev repo tr' rest of
             Inl e \<Rightarrow> Inl e
           | Inr (all_jobs, job_spans, tr'') \<Rightarrow>
               Inr (run_jobs run @ all_jobs, ss @ job_spans, tr'')))"

definition process_jobs ::
  "env \<Rightarrow> tracer \<Rightarrow> workflow_run list \<Rightarrow> span list \<Rightarrow> repository \<Rightarrow>
     py_error + workflow_job list \<times> span list \<times> tracer" where
  "process_jobs ev tr runs run_spans repo = process_jobs_loop ev repo tr (zip runs run_spans)"

subsection \<open>\<^verbatim>\<open>process_steps\<close>\<close>

text \<open>
  The source returns the list of steps; the spans it has started and ended are returned
  here too, in the same order, since they are what the function emits. \<open>step_attributes\<close>
  is the block of the loop body from the first \<^verbatim>\<open>set_attribute\<close> to the
  \<^verbatim>\<open>if step.conclusion == "failure"\<close>.
\<close>

definition step_failed :: "workflow_step \<Rightarrow> string" where
  "step_failed step = ''Step '' @ step_name step @ '' failed''"

definition step_attributes :: "env \<Rightarrow> workflow_step \<Rightarrow> int \<Rightarrow> int \<Rightarrow> span \<Rightarrow> span" where
  "step_attributes ev step started completed s =
     (let s = set_attribute s ''execution.id'' (AStr (execution_id ev));
          s = set_attribute s ''step.name'' (AStr (step_name step));
          s = set_attribute s ''step.number'' (AInt (step_number step));
          s = set_attribute s ''step.started_at'' (AInt started);
          s = set_attribute s ''step.completed_at'' (AInt completed)
      in if step_conclusion step = Some ''failure''
         then set_attribute
                (set_attribute (set_status s (step_failed step)) ''error'' (ABool True))
                ''error.message'' (AStr (step_failed step))
         else s)"

definition process_step ::
  "env \<Rightarrow> span \<Rightarrow> tracer \<Rightarrow> workflow_step \<Rightarrow> py_error + span \<times> tracer" where
  "process_step ev parent_span tr step =
     (case convert_time (step_started_at step) of
        Inl e \<Rightarrow> Inl e
      | Inr started \<Rightarrow>
     (case convert_time (step_completed_at step) of
        Inl e \<Rightarrow> Inl e
      | Inr completed \<Rightarrow>
          (let outer = current_span tr;
               (s, tr) = start_as_current_span tr (step_name step) started (Some parent_span);
               s = step_attributes ev step started completed s
           in Inr (span_end s completed, context_exit tr outer))))"

fun process_job_steps ::
  "env \<Rightarrow> span \<Rightarrow> tracer \<Rightarrow> workflow_step list \<Rightarrow> py_error + span list \<times> tracer" where
  "process_job_steps ev parent_span tr [] = Inr ([], tr)"
| "process_job_steps ev parent_span tr (step # steps) =
     (case process_step ev parent_span tr step of
        Inl e \<Rightarrow> Inl e
      | Inr (s, tr') \<Rightarrow>
          (case process_job_steps ev parent_span tr' steps of
             Inl e \<Rightarrow> Inl e
           | Inr (ss, tr'') \<Rightarrow> Inr (s # ss, tr'')))"

fun process_steps_loop ::
  "env \<Rightarrow> tracer \<Rightarrow> (workflow_job \<times> span) list \<Rightarrow>
     py_error + workflow_step list \<times> span list \<times> tracer" where
  "process_steps_loop ev tr [] = Inr ([], [], tr)"
| "process_steps_loop ev tr ((job, parent_span) # rest) =
     (case process_job_steps ev parent_span tr (job_steps job) of
        Inl e \<Rightarrow> Inl e
      | Inr (ss, tr') \<Rightarrow>
          (case process_steps_loop ev tr' rest of
             Inl e \<Rightarrow> Inl e
           | Inr (all_steps, step_spans, tr'') \<Rightarrow>
               Inr (job_steps job @ all_steps, ss @ step_spans, tr'')))"

definition process_steps ::
  "env \<Rightarrow> tracer \<Rightarrow> workflow_job list \<Rightarrow> span list \<Rightarrow>
     py_error + workflow_step list \<times> span list \<times> tracer" where
  "process_steps ev tr jobs job_spans = process_steps_loop ev tr (zip jobs job_spans)"

section \<open>Vocabulary of the properties\<close>

text \<open>
  The error markers of a span against the conclusion of its record: the status
  \<^verbatim>\<open>ERROR\<close> with the message, the attribute \<^verbatim>\<open>error\<close> set to \<^verbatim>\<open>True\<close> and the attribute
  \<^verbatim>\<open>error.message\<close>, all three when the conclusion is \<^verbatim>\<open>"failure"\<close> and none of them
  otherwise.
\<close>

definition error_markers :: "string \<Rightarrow> string option \<Rightarrow> span \<Rightarrow> bool" where
  "error_markers msg conclusion s =
     (if conclusion = Some ''failure''
      then status s = StatusError msg
         \<and> map_of (attributes s) ''error'' = Some (ABool True)
         \<and> map_of (attributes s) ''error.message'' = Some (AStr msg)
      else status s = StatusUnset
         \<and> map_of (attributes s) ''error'' = None
         \<and> map_of (attributes s) ''error.message'' = None)"

text \<open>
  The filename component of a path is what follows its last \<^verbatim>\<open>/\<close>. Stripping the
  extension of a filename removes its last \<^verbatim>\<open>.\<close> and what follows it, as the
  specification words it (basename minus suffix).
\<close>

definition basename :: "string \<Rightarrow> string" where
  "basename path = rev (takeWhile (\<lambda>c. c \<noteq> CHR ''/'') (rev path))"

definition strip_extension :: "string \<Rightarrow> string" where
  "strip_extension name =
     (if CHR ''.'' \<in> set name
      then rev (tl (dropWhile (\<lambda>c. c \<noteq> CHR ''.'') (rev name)))
      else name)"

text \<open>A date range is half specified when exactly one of its bounds is given.\<close>

definition half_specified :: "(string \<rightharpoonup> pyval) \<Rightarrow> bool" where
  "half_specified kwargs =
     ((kwargs_get kwargs ''start'' = PNone) \<noteq> (kwargs_get kwargs ''end'' = PNone))"




text \<open>
  A time stamp is within range when it is less than \<open>2 ^ 32\<close> seconds from the epoch:
  after 24 November 1833, 17:31:44 UTC and before 7 February 2106, 06:28:16 UTC.
\<close>

definition within_range :: "datetime \<Rightarrow> bool" where
  "within_range t = (\<bar>epoch_us t\<bar> < 4294967296000000)"

section \<open>An example history\<close>

text \<open>
  A workflow with two runs. The first, number 42, has failed and is completed; it has
  two jobs, \<open>build\<close> (failed, two steps, its annotations cannot be fetched) and \<open>lint\<close>
  (succeeded, no labels, one annotation). The second run, number 43, is still in
  progress. The time stamps are those of 1 January 2024, 12:00:00 UTC and later.
\<close>

definition ex_env :: env where
  "ex_env = \<lparr>execution_id = ''0f8fad5b'', today = (\<lambda>i. ''2024-06-01 10:00:00'')\<rparr>"

definition ex_tracer :: tracer where
  "ex_tracer = \<lparr>next_span_id = 0, current_span = None\<rparr>"

definition ex_step_checkout :: workflow_step where
  "ex_step_checkout =
     \<lparr>step_name = ''Checkout'', step_number = 1,
      step_started_at = Some (Datetime 1704110405000000),
      step_completed_at = Some (Datetime 1704110410000000),
      step_conclusion = Some ''success''\<rparr>"

definition ex_step_tests :: workflow_step where
  "ex_step_tests =
     \<lparr>step_name = ''Run tests'', step_number = 2,
      step_started_at = Some (Datetime 1704110410000000),
      step_completed_at = Some (Datetime 1704110460000000),
      step_conclusion = Some ''failure''\<rparr>"

definition ex_job_build :: workflow_job where
  "ex_job_build =
     \<lparr>job_id = 101, job_run_id = 7, job_name = ''build'',
      job_labels = PList [PStr ''ubuntu-latest''], job_run_attempt = None,
      job_runner_group_id = Some 1, job_runner_group_name = Some ''GitHub Actions'',
      job_runner_name = Some ''runner-1'',
      job_started_at = Some (Datetime 1704110405000000),
      job_completed_at = Some (Datetime 1704110460000000),
      job_created_at = Some (Datetime 1704110400000000),
      job_conclusion = Some ''failure'',
      job_steps = [ex_step_checkout, ex_step_tests]\<rparr>"

definition ex_job_lint :: workflow_job where
  "ex_job_lint =
     \<lparr>job_id = 102, job_run_id = 7, job_name = ''lint'',
      job_labels = PNone, job_run_attempt = Some 2,
      job_runner_group_id = None, job_runner_group_name = None, job_runner_name = None,
      job_started_at = Some (Datetime 1704110406000000),
      job_completed_at = Some (Datetime 1704110430000000),
      job_created_at = Some (Datetime 1704110400000000),
      job_conclusion = Some ''success'',
      job_steps = []\<rparr>"

definition ex_run_42 :: workflow_run where
  "ex_run_42 =
     \<lparr>run_id = 7, run_number = 42, run_attempt = None,
      run_html_url = ''https://github.com/o/r/actions/runs/7'', run_event = ''push'',
      run_name = Some ''CI'',
      run_started_at = Some (Datetime 1704110400000000),
      run_updated_at = Some (Datetime 1704112200000000),
      run_status = ''completed'',
      run_path = ''.github/workflows/my.workflow.yml'',
      run_conclusion = Some ''failure'',
      run_jobs = [ex_job_build, ex_job_lint]\<rparr>"

definition ex_run_43 :: workflow_run where
  "ex_run_43 =
     \<lparr>run_id = 8, run_number = 43, run_attempt = Some 3,
      run_html_url = ''https://github.com/o/r/actions/runs/8'', run_event = ''push'',
      run_name = None,
      run_started_at = Some (Datetime 1704113000000000),
      run_updated_at = Some (Datetime 1704113060000000),
      run_status = ''in_progress'',
      run_path = ''.github/workflows/ci.yml'',
      run_conclusion = None,
      run_jobs = []\<rparr>"

definition ex_workflow :: workflow where
  "ex_workflow =
     \<lparr>workflow_id = 5, workflow_name = ''CI'',
      get_runs = (\<lambda>created. [ex_run_42, ex_run_43])\<rparr>"

definition ex_annotation :: annotation where
  "ex_annotation =
     \<lparr>ann_message = ''unused variable'', ann_annotation_level = ''warning'',
      ann_title = ''lint''\<rparr>"

definition ex_repo :: repository where
  "ex_repo =
     \<lparr>repo_name = ''r'',
      get_check_run =
        (\<lambda>job. if job = 101 then Inl (Exception ''404 Not Found'')
               else Inr \<lparr>get_annotations = Inr [ex_annotation]\<rparr>)\<rparr>"

text \<open>What the three emitters produce for it, one after the other.\<close>

definition ex_run_spans :: "span list" where
  "ex_run_spans =
     [\<lparr>span_id = 0, parent_id = None, span_name = ''my'',
       start_time = 1704110400000000000, end_time = Some 1704112200000000000,
       attributes =
         [(''execution.id'', AStr ''0f8fad5b''), (''workflow.id'', AInt 5),
          (''run.id'', AInt 7), (''run.run_number'', AInt 42),
          (''run.run_attempt'', AInt 1),
          (''run.html_url'', AStr ''https://github.com/o/r/actions/runs/7''),
          (''run.event'', AStr ''push''), (''run.name'', AStr ''CI''),
          (''run.run_started_at'', AInt 1704110400000000000),
          (''run.updated_at'', AInt 1704112200000000000),
          (''my_date'', AStr ''2024-06-01 10:00:00''),
          (''run.conclusion'', AStr ''failure''),
          (''error'', ABool True), (''error.message'', AStr ''Run 42 failed'')],
       events = [], status = StatusError ''Run 42 failed''\<rparr>,
      \<lparr>span_id = 1, parent_id = None, span_name = ''ci'',
       start_time = 1704113000000000000, end_time = None,
       attributes =
         [(''execution.id'', AStr ''0f8fad5b''), (''workflow.id'', AInt 5),
          (''run.id'', AInt 8), (''run.run_number'', AInt 43),
          (''run.run_attempt'', AInt 3),
          (''run.html_url'', AStr ''https://github.com/o/r/actions/runs/8''),
          (''run.event'', AStr ''push''), (''run.name'', ANone),
          (''run.run_started_at'', AInt 1704113000000000000),
          (''run.updated_at'', ANone),
          (''my_date'', AStr ''2024-06-01 10:00:00''),
          (''run.conclusion'', ANone)],
       events = [], status = StatusUnset\<rparr>]"

definition ex_tracer_runs :: tracer where
  "ex_tracer_runs = \<lparr>next_span_id = 2, current_span = Some 1\<rparr>"

definition ex_job_spans :: "span list" where
  "ex_job_spans =
     [\<lparr>span_id = 2, parent_id = Some 0, span_name = ''build'',
       start_time = 1704110405000000000, end_time = Some 1704110460000000000,
       attributes =
         [(''runs_on'', AStr ''ubuntu-latest''), (''execution.id'', AStr ''0f8fad5b''),
          (''job.id'', AInt 101), (''job.run_id'', AInt 7), (''job.run_attempt'', AInt 1),
          (''job.runner_group_id'', AInt 1),
          (''job.runner_group_name'', AStr ''GitHub Actions''),
          (''job.runner_name'', AStr ''runner-1''),
          (''job.started_at'', AInt 1704110405000000000),
          (''job.completed_at'', AInt 1704110460000000000),
          (''job.created_at'', AInt 1704110400000000000),
          (''job.queue_time_seconds'', AFloat 5),
          (''error'', ABool True), (''error.message'', AStr ''Job build failed'')],
       events = [], status = StatusError ''Job build failed''\<rparr>,
      \<lparr>span_id = 3, parent_id = Some 0, span_name = ''lint'',
       start_time = 1704110406000000000, end_time = Some 1704110430000000000,
       attributes =
         [(''runs_on'', AStr []), (''execution.id'', AStr ''0f8fad5b''),
          (''job.id'', AInt 102), (''job.run_id'', AInt 7), (''job.run_attempt'', AInt 2),
          (''job.started_at'', AInt 1704110406000000000),
          (''job.completed_at'', AInt 1704110430000000000),
          (''job.created_at'', AInt 1704110400000000000),
          (''job.queue_time_seconds'', AFloat 6)],
       events =
         [\<lparr>event_name = Some ''success'',
           event_attributes =
             [(''message'', AStr ''unused variable''),
              (''annotation_level'', AStr ''warning''), (''title'', AStr ''lint'')],
           event_timestamp = 1704110406000000000\<rparr>],
       status = StatusUnset\<rparr>]"

definition ex_tracer_jobs :: tracer where
  "ex_tracer_jobs = \<lparr>next_span_id = 4, current_span = Some 1\<rparr>"

definition ex_step_spans :: "span list" where
  "ex_step_spans =
     [\<lparr>span_id = 4, parent_id = Some 2, span_name = ''Checkout'',
       start_time = 1704110405000000000, end_time = Some 1704110410000000000,
       attributes =
         [(''execution.id'', AStr ''0f8fad5b''), (''step.name'', AStr ''Checkout''),
          (''step.number'', AInt 1),
          (''step.started_at'', AInt 1704110405000000000),
          (''step.completed_at'', AInt 1704110410000000000)],
       events = [], status = StatusUnset\<rparr>,
      \<lparr>span_id = 5, parent_id = Some 2, span_name = ''Run tests'',
       start_time = 1704110410000000000, end_time = Some 1704110460000000000,
       attributes =
         [(''execution.id'', AStr ''0f8fad5b''), (''step.name'', AStr ''Run tests''),
          (''step.number'', AInt 2),
          (''step.started_at'', AInt 1704110410000000000),
          (''step.completed_at'', AInt 1704110460000000000),
          (''error'', ABool True), (''error.message'', AStr ''Step Run tests failed'')],
       events = [], status = StatusError ''Step Run tests failed''\<rparr>]"

definition ex_tracer_steps :: tracer where
  "ex_tracer_steps = \<lparr>next_span_id = 6, current_span = Some 1\<rparr>"

text \<open>
  A run that is completed and was last updated at the epoch itself, 1 January 1970,
  00:00:00 UTC, one minute after it started.
\<close>

definition ex_run_epoch :: workflow_run where
  "ex_run_epoch =
     \<lparr>run_id = 9, run_number = 1, run_attempt = Some 1,
      run_html_url = ''https://github.com/o/r/actions/runs/9'', run_event = ''push'',
      run_name = Some ''CI'',
      run_started_at = Some (Datetime (- 60000000)),
      run_updated_at = Some (Datetime 0),
      run_status = ''completed'',
      run_path = ''.github/workflows/ci.yml'',
      run_conclusion = Some ''success'',
      run_jobs = []\<rparr>"

definition ex_workflow_epoch :: workflow where
  "ex_workflow_epoch =
     \<lparr>workflow_id = 5, workflow_name = ''CI'', get_runs = (\<lambda>created. [ex_run_epoch])\<rparr>"

text \<open>A job that is still running: it has no completion time yet.\<close>

definition ex_job_running :: workflow_job where
  "ex_job_running =
     \<lparr>job_id = 103, job_run_id = 8, job_name = ''deploy'',
      job_labels = PList [PStr ''ubuntu-latest''], job_run_attempt = Some 1,
      job_runner_group_id = None, job_runner_group_name = None, job_runner_name = None,
      job_started_at = Some (Datetime 1704113005000000),
      job_completed_at = None,
      job_created_at = Some (Datetime 1704113000000000),
      job_conclusion = None,
      job_steps = []\<rparr>"

definition ex_run_running :: workflow_run where
  "ex_run_running = ex_run_43\<lparr>run_jobs := [ex_job_running]\<rparr>"

text \<open>
  Arguments with a start date and no end date, without and with an organisation, and a
  client whose authenticated user is \<open>octocat\<close>.
\<close>

definition ex_kwargs_half :: "string \<rightharpoonup> pyval" where
  "ex_kwargs_half =
     [''repo'' \<mapsto> PStr ''r'', ''workflow'' \<mapsto> PStr ''CI'', ''start'' \<mapsto> PStr ''2024-01-01'']"

definition ex_kwargs_half_org :: "string \<rightharpoonup> pyval" where
  "ex_kwargs_half_org = ex_kwargs_half(''org'' \<mapsto> PStr ''o'')"

definition ex_github :: github where
  "ex_github = \<lparr>get_user = Inr \<lparr>login = Inr ''octocat''\<rparr>\<rparr>"

section \<open>Spans under the operations of the source\<close>

lemma map_of_set_attribute [simp]:
  "map_of (attributes (set_attribute s k v)) = (map_of (attributes s))(k \<mapsto> v)"
  by (simp add: set_attribute_def update_conv')

lemma set_attribute_frame [simp]:
  "status (set_attribute s k v) = status s"
  "end_time (set_attribute s k v) = end_time s"
  "events (set_attribute s k v) = events s"
  "span_name (set_attribute s k v) = span_name s"
  by (simp_all add: set_attribute_def)

lemma set_status_frame [simp]:
  "status (set_status s d) = StatusError d"
  "attributes (set_status s d) = attributes s"
  "end_time (set_status s d) = end_time s"
  "events (set_status s d) = events s"
  "span_name (set_status s d) = span_name s"
  by (simp_all add: set_status_def)

lemma span_end_frame [simp]:
  "status (span_end s t) = status s"
  "attributes (span_end s t) = attributes s"
  "end_time (span_end s t) = Some t"
  "events (span_end s t) = events s"
  "span_name (span_end s t) = span_name s"
  by (simp_all add: span_end_def)

lemma start_span_fresh [simp]:
  "status (fst (start_as_current_span tr n t c)) = StatusUnset"
  "attributes (fst (start_as_current_span tr n t c)) = []"
  "end_time (fst (start_as_current_span tr n t c)) = None"
  "events (fst (start_as_current_span tr n t c)) = []"
  "span_name (fst (start_as_current_span tr n t c)) = n"
  by (simp_all add: start_as_current_span_def)

lemma annotation_events_frame [simp]:
  "status (foldl (annotation_event job t) s items) = status s"
  "attributes (foldl (annotation_event job t) s items) = attributes s"
  "end_time (foldl (annotation_event job t) s items) = end_time s"
  "span_name (foldl (annotation_event job t) s items) = span_name s"
  by (induction items arbitrary: s; simp add: annotation_event_def add_event_def)+

section \<open>The loops, item by item\<close>

lemma process_runs_loop_all2:
  assumes step: "\<And>i tr run s tr'. process_run ev w i tr run = Inr (s, tr') \<Longrightarrow> P run s"
  shows "process_runs_loop ev w i tr runs = Inr (ss, tr') \<Longrightarrow> list_all2 P runs ss"
proof (induction runs arbitrary: i tr ss tr')
  case Nil
  then show ?case by simp
next
  case (Cons run runs)
  from Cons.prems obtain s tr1 ss1 where
    one: "process_run ev w i tr run = Inr (s, tr1)" and
    rest: "process_runs_loop ev w (Suc i) tr1 runs = Inr (ss1, tr')" and
    ss: "ss = s # ss1"
    by (auto split: sum.splits)
  from step [OF one] Cons.IH [OF rest] ss show ?case by simp
qed

lemma process_runs_all2:
  assumes step: "\<And>i tr run s tr'. process_run ev w i tr run = Inr (s, tr') \<Longrightarrow> P run s"
    and res: "process_runs ev tr w start end' = Inr (runs, run_spans, tr')"
  shows "list_all2 P runs run_spans"
proof -
  from res obtain rs where
    "process_runs_loop ev w 0 tr rs = Inr (run_spans, tr')" and "runs = rs"
    by (auto simp: process_runs_def Let_def split: sum.splits)
  then show ?thesis
    by (simp add: process_runs_loop_all2 [OF step])
qed

lemma process_run_jobs_all2:
  assumes step: "\<And>tr job s tr'. process_job ev repo parent tr job = Inr (s, tr') \<Longrightarrow> P job s"
  shows "process_run_jobs ev repo parent tr jobs = Inr (ss, tr') \<Longrightarrow> list_all2 P jobs ss"
proof (induction jobs arbitrary: tr ss tr')
  case Nil
  then show ?case by simp
next
  case (Cons job jobs)
  from Cons.prems obtain s tr1 ss1 where
    one: "process_job ev repo parent tr job = Inr (s, tr1)" and
    rest: "process_run_jobs ev repo parent tr1 jobs = Inr (ss1, tr')" and
    ss: "ss = s # ss1"
    by (auto split: sum.splits)
  from step [OF one] Cons.IH [OF rest] ss show ?case by simp
qed

lemma process_jobs_loop_all2:
  assumes step: "\<And>parent tr job s tr'. process_job ev repo parent tr job = Inr (s, tr') \<Longrightarrow> P job s"
  shows "process_jobs_loop ev repo tr pairs = Inr (jobs, ss, tr') \<Longrightarrow> list_all2 P jobs ss"
proof (induction pairs arbitrary: tr jobs ss tr')
  case Nil
  then show ?case by simp
next
  case (Cons pair pairs)
  obtain run parent where pair: "pair = (run, parent)" by (cases pair)
  from Cons.prems pair obtain ss1 tr1 jobs2 ss2 where
    one: "process_run_jobs ev repo parent tr (run_jobs run) = Inr (ss1, tr1)" and
    rest: "process_jobs_loop ev repo tr1 pairs = Inr (jobs2, ss2, tr')" and
    out: "jobs = run_jobs run @ jobs2" "ss = ss1 @ ss2"
    by (auto split: sum.splits)
  have "list_all2 P (run_jobs run) ss1"
    by (rule process_run_jobs_all2 [OF _ one]) (erule step)
  with Cons.IH [OF rest] out show ?case
    by (simp add: list_all2_appendI)
qed

lemma process_jobs_all2:
  assumes step: "\<And>parent tr job s tr'. process_job ev repo parent tr job = Inr (s, tr') \<Longrightarrow> P job s"
    and res: "process_jobs ev tr runs run_spans repo = Inr (jobs, job_spans, tr')"
  shows "list_all2 P jobs job_spans"
  using res by (simp add: process_jobs_def process_jobs_loop_all2 [OF step])

lemma process_job_steps_all2:
  assumes step: "\<And>tr st s tr'. process_step ev parent tr st = Inr (s, tr') \<Longrightarrow> P st s"
  shows "process_job_steps ev parent tr steps = Inr (ss, tr') \<Longrightarrow> list_all2 P steps ss"
proof (induction steps arbitrary: tr ss tr')
  case Nil
  then show ?case by simp
next
  case (Cons st steps)
  from Cons.prems obtain s tr1 ss1 where
    one: "process_step ev parent tr st = Inr (s, tr1)" and
    rest: "process_job_steps ev parent tr1 steps = Inr (ss1, tr')" and
    ss: "ss = s # ss1"
    by (auto split: sum.splits)
  from step [OF one] Cons.IH [OF rest] ss show ?case by simp
qed

lemma process_steps_loop_all2:
  assumes step: "\<And>parent tr st s tr'. process_step ev parent tr st = Inr (s, tr') \<Longrightarrow> P st s"
  shows "process_steps_loop ev tr pairs = Inr (steps, ss, tr') \<Longrightarrow> list_all2 P steps ss"
proof (induction pairs arbitrary: tr steps ss tr')
  case Nil
  then show ?case by simp
next
  case (Cons pair pairs)
  obtain job parent where pair: "pair = (job, parent)" by (cases pair)
  from Cons.prems pair obtain ss1 tr1 steps2 ss2 where
    one: "process_job_steps ev parent tr (job_steps job) = Inr (ss1, tr1)" and
    rest: "process_steps_loop ev tr1 pairs = Inr (steps2, ss2, tr')" and
    out: "steps = job_steps job @ steps2" "ss = ss1 @ ss2"
    by (auto split: sum.splits)
  have "list_all2 P (job_steps job) ss1"
    by (rule process_job_steps_all2 [OF _ one]) (erule step)
  with Cons.IH [OF rest] out show ?case
    by (simp add: list_all2_appendI)
qed

lemma process_steps_all2:
  assumes step: "\<And>parent tr st s tr'. process_step ev parent tr st = Inr (s, tr') \<Longrightarrow> P st s"
    and res: "process_steps ev tr jobs job_spans = Inr (steps, step_spans, tr')"
  shows "list_all2 P steps step_spans"
  using res by (simp add: process_steps_def process_steps_loop_all2 [OF step])

section \<open>The example, evaluated\<close>

lemma ex_process_runs:
  "process_runs ex_env ex_tracer ex_workflow None None
     = Inr ([ex_run_42, ex_run_43], ex_run_spans, ex_tracer_runs)"
  by code_simp

lemma ex_process_jobs:
  "process_jobs ex_env ex_tracer_runs [ex_run_42, ex_run_43] ex_run_spans ex_repo
     = Inr ([ex_job_build, ex_job_lint], ex_job_spans, ex_tracer_jobs)"
  by code_simp

lemma ex_process_steps:
  "process_steps ex_env ex_tracer_jobs [ex_job_build, ex_job_lint] ex_job_spans
     = Inr ([ex_step_checkout, ex_step_tests], ex_step_spans, ex_tracer_steps)"
  by code_simp

section \<open>The loop bodies\<close>

lemma error_markers_span_end [simp]:
  "error_markers msg c (span_end s t) = error_markers msg c s"
  by (simp add: error_markers_def)

lemma process_run_InrE:
  assumes "process_run ev w i tr run = Inr (s, tr')"
  obtains started completed body where
    "convert_time (run_started_at run) = Inr started"
    "run_status run = ''completed'' \<Longrightarrow> \<exists>t. convert_time (run_updated_at run) = Inr t \<and> completed = Some t"
    "run_status run \<noteq> ''completed'' \<Longrightarrow> completed = None"
    "body = run_attributes ev w i run started completed
              (fst (start_as_current_span tr (run_display_name (run_path run)) started None))"
    "s = (case completed of None \<Rightarrow> body | Some t \<Rightarrow> if t \<noteq> 0 then span_end body t else body)"
  using assms
  by (auto simp: process_run_def Let_def split_def split: sum.splits option.splits if_splits)

lemma process_job_InrE:
  assumes "process_job ev repo parent tr job = Inr (s, tr')"
  obtains started completed created runs_on where
    "convert_time (job_started_at job) = Inr started"
    "convert_time (job_completed_at job) = Inr completed"
    "convert_time (job_created_at job) = Inr created"
    "join_empty (normalized_labels (job_labels job)) = Inr runs_on"
    "s = span_end
           (job_attributes ev repo job started completed created
              (true_div (started - created) 1000000000)
              (set_attribute (fst (start_as_current_span tr (job_name job) started (Some parent)))
                 ''runs_on'' (AStr runs_on)))
           completed"
  using assms
  by (auto simp: process_job_def Let_def split_def split: sum.splits)

lemma process_step_InrE:
  assumes "process_step ev parent tr st = Inr (s, tr')"
  obtains started completed where
    "convert_time (step_started_at st) = Inr started"
    "convert_time (step_completed_at st) = Inr completed"
    "s = span_end
           (step_attributes ev st started completed
              (fst (start_as_current_span tr (step_name st) started (Some parent))))
           completed"
  using assms
  by (auto simp: process_step_def Let_def split_def split: sum.splits)

lemma run_attributes_error_markers:
  assumes "status s = StatusUnset" "map_of (attributes s) ''error'' = None"
    "map_of (attributes s) ''error.message'' = None"
  shows "error_markers (''Run '' @ str_int (run_number run) @ '' failed'') (run_conclusion run)
           (run_attributes ev w i run started completed s)"
  using assms
  by (simp add: run_attributes_def error_markers_def run_failed_def Let_def split: option.split)

lemma job_attributes_error_markers:
  assumes "status s = StatusUnset" "map_of (attributes s) ''error'' = None"
    "map_of (attributes s) ''error.message'' = None"
  shows "error_markers (''Job '' @ job_name job @ '' failed'') (job_conclusion job)
           (job_attributes ev repo job started completed created queue_time s)"
  using assms
  by (simp add: job_attributes_def error_markers_def job_failed_def Let_def split_def
      split: option.split)

lemma step_attributes_error_markers:
  assumes "status s = StatusUnset" "map_of (attributes s) ''error'' = None"
    "map_of (attributes s) ''error.message'' = None"
  shows "error_markers (''Step '' @ step_name st @ '' failed'') (step_conclusion st)
           (step_attributes ev st started completed s)"
  using assms
  by (simp add: step_attributes_def error_markers_def step_failed_def Let_def)

lemma process_run_error_markers:
  assumes "process_run ev w i tr run = Inr (s, tr')"
  shows "error_markers (''Run '' @ str_int (run_number run) @ '' failed'') (run_conclusion run) s"
proof -
  from assms obtain started completed body where
    body: "body = run_attributes ev w i run started completed
              (fst (start_as_current_span tr (run_display_name (run_path run)) started None))"
    and s: "s = (case completed of None \<Rightarrow> body | Some t \<Rightarrow> if t \<noteq> 0 then span_end body t else body)"
    by (rule process_run_InrE)
  have "error_markers (''Run '' @ str_int (run_number run) @ '' failed'') (run_conclusion run) body"
    unfolding body by (rule run_attributes_error_markers) simp_all
  then show ?thesis
    unfolding s by (simp split: option.split)
qed

lemma process_job_error_markers:
  assumes "process_job ev repo parent tr job = Inr (s, tr')"
  shows "error_markers (''Job '' @ job_name job @ '' failed'') (job_conclusion job) s"
proof -
  from assms obtain started completed created runs_on where
    s: "s = span_end
           (job_attributes ev repo job started completed created
              (true_div (started - created) 1000000000)
              (set_attribute (fst (start_as_current_span tr (job_name job) started (Some parent)))
                 ''runs_on'' (AStr runs_on)))
           completed"
    by (rule process_job_InrE)
  show ?thesis
    unfolding s error_markers_span_end by (rule job_attributes_error_markers) simp_all
qed

lemma process_step_error_markers:
  assumes "process_step ev parent tr st = Inr (s, tr')"
  shows "error_markers (''Step '' @ step_name st @ '' failed'') (step_conclusion st) s"
proof -
  from assms obtain started completed where
    s: "s = span_end
           (step_attributes ev st started completed
              (fst (start_as_current_span tr (step_name st) started (Some parent))))
           completed"
    by (rule process_step_InrE)
  show ?thesis
    unfolding s error_markers_span_end by (rule step_attributes_error_markers) simp_all
qed

section \<open>Error markers (C1)\<close>

text \<open>
  Claim C1. Every span that \<^verbatim>\<open>process_runs\<close>, \<^verbatim>\<open>process_jobs\<close> and \<^verbatim>\<open>process_steps\<close>
  emit carries the status \<^verbatim>\<open>ERROR\<close> (with the message \<^verbatim>\<open>Run {run_number} failed\<close>,
  \<^verbatim>\<open>Job {job.name} failed\<close>, \<^verbatim>\<open>Step {step.name} failed\<close>), the attribute \<^verbatim>\<open>error\<close> set to
  \<^verbatim>\<open>True\<close> and the attribute \<^verbatim>\<open>error.message\<close> when the conclusion of its record is
  \<^verbatim>\<open>"failure"\<close>; for any other conclusion the status is unset and neither attribute is
  present.
\<close>

theorem error_markers_iff_failure:
  "(process_runs ev tr w start end' = Inr (runs, run_spans, tr1) \<longrightarrow>
      list_all2 (\<lambda>run s. error_markers (''Run '' @ str_int (run_number run) @ '' failed'')
                   (run_conclusion run) s) runs run_spans)
   \<and> (process_jobs ev tr' runs' run_spans' repo = Inr (jobs, job_spans, tr2) \<longrightarrow>
      list_all2 (\<lambda>job s. error_markers (''Job '' @ job_name job @ '' failed'')
                   (job_conclusion job) s) jobs job_spans)
   \<and> (process_steps ev tr'' jobs' job_spans' = Inr (steps, step_spans, tr3) \<longrightarrow>
      list_all2 (\<lambda>step s. error_markers (''Step '' @ step_name step @ '' failed'')
                   (step_conclusion step) s) steps step_spans)"
proof (intro conjI impI)
  assume "process_runs ev tr w start end' = Inr (runs, run_spans, tr1)"
  then show "list_all2 (\<lambda>run s. error_markers (''Run '' @ str_int (run_number run) @ '' failed'')
                   (run_conclusion run) s) runs run_spans"
    by (rule process_runs_all2 [rotated]) (rule process_run_error_markers)
next
  assume "process_jobs ev tr' runs' run_spans' repo = Inr (jobs, job_spans, tr2)"
  then show "list_all2 (\<lambda>job s. error_markers (''Job '' @ job_name job @ '' failed'')
                   (job_conclusion job) s) jobs job_spans"
    by (rule process_jobs_all2 [rotated]) (rule process_job_error_markers)
next
  assume "process_steps ev tr'' jobs' job_spans' = Inr (steps, step_spans, tr3)"
  then show "list_all2 (\<lambda>step s. error_markers (''Step '' @ step_name step @ '' failed'')
                   (step_conclusion step) s) steps step_spans"
    by (rule process_steps_all2 [rotated]) (rule process_step_error_markers)
qed

text \<open>
  In the example, run 42, the job \<open>build\<close> and the step \<open>Run tests\<close> have failed and carry
  the markers; run 43, the job \<open>lint\<close> and the step \<open>Checkout\<close> do not.
\<close>

theorem error_markers_iff_failure_example:
  "process_runs ex_env ex_tracer ex_workflow None None
     = Inr ([ex_run_42, ex_run_43], ex_run_spans, ex_tracer_runs)
   \<and> list_all2 (\<lambda>run s. error_markers (''Run '' @ str_int (run_number run) @ '' failed'')
                   (run_conclusion run) s) [ex_run_42, ex_run_43] ex_run_spans
   \<and> process_jobs ex_env ex_tracer_runs [ex_run_42, ex_run_43] ex_run_spans ex_repo
     = Inr ([ex_job_build, ex_job_lint], ex_job_spans, ex_tracer_jobs)
   \<and> list_all2 (\<lambda>job s. error_markers (''Job '' @ job_name job @ '' failed'')
                   (job_conclusion job) s) [ex_job_build, ex_job_lint] ex_job_spans
   \<and> process_steps ex_env ex_tracer_jobs [ex_job_build, ex_job_lint] ex_job_spans
     = Inr ([ex_step_checkout, ex_step_tests], ex_step_spans, ex_tracer_steps)
   \<and> list_all2 (\<lambda>step s. error_markers (''Step '' @ step_name step @ '' failed'')
                   (step_conclusion step) s) [ex_step_checkout, ex_step_tests] ex_step_spans
   \<and> map status ex_run_spans = [StatusError ''Run 42 failed'', StatusUnset]
   \<and> map status ex_job_spans = [StatusError ''Job build failed'', StatusUnset]
   \<and> map status ex_step_spans = [StatusUnset, StatusError ''Step Run tests failed'']"
proof -
  note inst = error_markers_iff_failure
    [where ev = ex_env and tr = ex_tracer and w = ex_workflow and start = None
       and end' = None and runs = "[ex_run_42, ex_run_43]" and run_spans = ex_run_spans
       and ?tr1.0 = ex_tracer_runs and tr' = ex_tracer_runs
       and runs' = "[ex_run_42, ex_run_43]" and run_spans' = ex_run_spans and repo = ex_repo
       and jobs = "[ex_job_build, ex_job_lint]" and job_spans = ex_job_spans
       and ?tr2.0 = ex_tracer_jobs and tr'' = ex_tracer_jobs
       and jobs' = "[ex_job_build, ex_job_lint]" and job_spans' = ex_job_spans
       and steps = "[ex_step_checkout, ex_step_tests]" and step_spans = ex_step_spans
       and ?tr3.0 = ex_tracer_steps]
  have "map status ex_run_spans = [StatusError ''Run 42 failed'', StatusUnset]"
    "map status ex_job_spans = [StatusError ''Job build failed'', StatusUnset]"
    "map status ex_step_spans = [StatusUnset, StatusError ''Step Run tests failed'']"
    by (simp_all add: ex_run_spans_def ex_job_spans_def ex_step_spans_def)
  with inst ex_process_runs ex_process_jobs ex_process_steps show ?thesis
    by blast
qed

section \<open>Attempt numbers (C8)\<close>

lemma run_attributes_attempt:
  "map_of (attributes (run_attributes ev w i run started completed s)) ''run.run_attempt''
     = Some (AInt (case run_attempt run of None \<Rightarrow> 1 | Some a \<Rightarrow> a))"
  by (simp add: run_attributes_def Let_def split: option.split)

lemma job_attributes_attempt:
  "map_of (attributes (job_attributes ev repo job started completed created queue_time s))
       ''job.run_attempt''
     = Some (AInt (case job_run_attempt job of None \<Rightarrow> 1 | Some a \<Rightarrow> a))"
  by (simp add: job_attributes_def Let_def split_def split: option.split)

lemma process_run_attempt:
  assumes "process_run ev w i tr run = Inr (s, tr')"
  shows "map_of (attributes s) ''run.run_attempt''
           = Some (AInt (case run_attempt run of None \<Rightarrow> 1 | Some a \<Rightarrow> a))"
proof -
  from assms obtain started completed body where
    body: "body = run_attributes ev w i run started completed
              (fst (start_as_current_span tr (run_display_name (run_path run)) started None))"
    and s: "s = (case completed of None \<Rightarrow> body | Some t \<Rightarrow> if t \<noteq> 0 then span_end body t else body)"
    by (rule process_run_InrE)
  have "attributes s = attributes body"
    unfolding s by (simp split: option.split)
  then show ?thesis
    unfolding body by (simp only: run_attributes_attempt)
qed

lemma process_job_attempt:
  assumes "process_job ev repo parent tr job = Inr (s, tr')"
  shows "map_of (attributes s) ''job.run_attempt''
           = Some (AInt (case job_run_attempt job of None \<Rightarrow> 1 | Some a \<Rightarrow> a))"
proof -
  from assms obtain started completed created runs_on where
    s: "s = span_end
           (job_attributes ev repo job started completed created
              (true_div (started - created) 1000000000)
              (set_attribute (fst (start_as_current_span tr (job_name job) started (Some parent)))
                 ''runs_on'' (AStr runs_on)))
           completed"
    by (rule process_job_InrE)
  show ?thesis
    unfolding s by (simp only: span_end_frame job_attributes_attempt)
qed

text \<open>
  Claim C8. On every run span of \<^verbatim>\<open>process_runs\<close> and every job span of
  \<^verbatim>\<open>process_jobs\<close> the attempt attribute (\<^verbatim>\<open>run.run_attempt\<close>, \<^verbatim>\<open>job.run_attempt\<close>) is
  present and an integer: 1 when the record has no attempt number, the record's number
  otherwise.
\<close>

theorem run_attempt_never_absent:
  "(process_runs ev tr w start end' = Inr (runs, run_spans, tr1) \<longrightarrow>
      list_all2 (\<lambda>run s. map_of (attributes s) ''run.run_attempt''
                   = Some (AInt (case run_attempt run of None \<Rightarrow> 1 | Some a \<Rightarrow> a)))
        runs run_spans)
   \<and> (process_jobs ev tr' runs' run_spans' repo = Inr (jobs, job_spans, tr2) \<longrightarrow>
      list_all2 (\<lambda>job s. map_of (attributes s) ''job.run_attempt''
                   = Some (AInt (case job_run_attempt job of None \<Rightarrow> 1 | Some a \<Rightarrow> a)))
        jobs job_spans)"
proof (intro conjI impI)
  assume "process_runs ev tr w start end' = Inr (runs, run_spans, tr1)"
  then show "list_all2 (\<lambda>run s. map_of (attributes s) ''run.run_attempt''
                   = Some (AInt (case run_attempt run of None \<Rightarrow> 1 | Some a \<Rightarrow> a)))
        runs run_spans"
    by (rule process_runs_all2 [rotated]) (rule process_run_attempt)
next
  assume "process_jobs ev tr' runs' run_spans' repo = Inr (jobs, job_spans, tr2)"
  then show "list_all2 (\<lambda>job s. map_of (attributes s) ''job.run_attempt''
                   = Some (AInt (case job_run_attempt job of None \<Rightarrow> 1 | Some a \<Rightarrow> a)))
        jobs job_spans"
    by (rule process_jobs_all2 [rotated]) (rule process_job_attempt)
qed

text \<open>In the example, run 42 and the job \<open>build\<close> have no attempt number and get 1.\<close>

theorem run_attempt_never_absent_example:
  "process_runs ex_env ex_tracer ex_workflow None None
     = Inr ([ex_run_42, ex_run_43], ex_run_spans, ex_tracer_runs)
   \<and> list_all2 (\<lambda>run s. map_of (attributes s) ''run.run_attempt''
                   = Some (AInt (case run_attempt run of None \<Rightarrow> 1 | Some a \<Rightarrow> a)))
        [ex_run_42, ex_run_43] ex_run_spans
   \<and> process_jobs ex_env ex_tracer_runs [ex_run_42, ex_run_43] ex_run_spans ex_repo
     = Inr ([ex_job_build, ex_job_lint], ex_job_spans, ex_tracer_jobs)
   \<and> list_all2 (\<lambda>job s. map_of (attributes s) ''job.run_attempt''
                   = Some (AInt (case job_run_attempt job of None \<Rightarrow> 1 | Some a \<Rightarrow> a)))
        [ex_job_build, ex_job_lint] ex_job_spans
   \<and> map run_attempt [ex_run_42, ex_run_43] = [None, Some 3]
   \<and> map (\<lambda>s. map_of (attributes s) ''run.run_attempt'') ex_run_spans
        = [Some (AInt 1), Some (AInt 3)]
   \<and> map job_run_attempt [ex_job_build, ex_job_lint] = [None, Some 2]
   \<and> map (\<lambda>s. map_of (attributes s) ''job.run_attempt'') ex_job_spans
        = [Some (AInt 1), Some (AInt 2)]"
proof -
  note inst = run_attempt_never_absent
    [where ev = ex_env and tr = ex_tracer and w = ex_workflow and start = None
       and end' = None and runs = "[ex_run_42, ex_run_43]" and run_spans = ex_run_spans
       and ?tr1.0 = ex_tracer_runs and tr' = ex_tracer_runs
       and runs' = "[ex_run_42, ex_run_43]" and run_spans' = ex_run_spans and repo = ex_repo
       and jobs = "[ex_job_build, ex_job_lint]" and job_spans = ex_job_spans
       and ?tr2.0 = ex_tracer_jobs]
  have "map run_attempt [ex_run_42, ex_run_43] = [None, Some 3]"
    "map (\<lambda>s. map_of (attributes s) ''run.run_attempt'') ex_run_spans
        = [Some (AInt 1), Some (AInt 3)]"
    "map job_run_attempt [ex_job_build, ex_job_lint] = [None, Some 2]"
    "map (\<lambda>s. map_of (attributes s) ''job.run_attempt'') ex_job_spans
        = [Some (AInt 1), Some (AInt 2)]"
    by (simp_all add: ex_run_spans_def ex_job_spans_def ex_run_42_def ex_run_43_def
        ex_job_build_def ex_job_lint_def)
  with inst ex_process_runs ex_process_jobs show ?thesis
    by blast
qed

section \<open>The end of a job span (C10)\<close>

lemma job_attributes_end_time [simp]:
  "end_time (job_attributes ev repo job started completed created queue_time s) = end_time s"
  by (simp add: job_attributes_def Let_def split_def split: option.split)

lemma job_attributes_completed_at:
  "map_of (attributes (job_attributes ev repo job started completed created queue_time s))
       ''job.completed_at'' = Some (AInt completed)"
  by (simp add: job_attributes_def Let_def split_def split: option.split)

lemma process_job_ended:
  assumes "process_job ev repo parent tr job = Inr (s, tr')"
  shows "\<exists>t. convert_time (job_completed_at job) = Inr t \<and> end_time s = Some t
           \<and> map_of (attributes s) ''job.completed_at'' = Some (AInt t)"
proof -
  from assms obtain started completed created runs_on where
    c: "convert_time (job_completed_at job) = Inr completed" and
    s: "s = span_end
           (job_attributes ev repo job started completed created
              (true_div (started - created) 1000000000)
              (set_attribute (fst (start_as_current_span tr (job_name job) started (Some parent)))
                 ''runs_on'' (AStr runs_on)))
           completed"
    by (rule process_job_InrE)
  have "end_time s = Some completed"
    unfolding s by simp
  moreover have "map_of (attributes s) ''job.completed_at'' = Some (AInt completed)"
    unfolding s by (simp only: span_end_frame job_attributes_completed_at)
  ultimately show ?thesis
    using c by blast
qed

lemma process_job_no_completion:
  assumes "job_completed_at job = None"
  shows "process_job ev repo parent tr job = Inl AttributeError"
  using assms by (simp add: process_job_def convert_time_def split: option.split sum.split)

lemma process_run_jobs_abort:
  assumes fails: "\<And>tr. \<exists>e. process_job ev repo parent tr job = Inl e"
  shows "job \<in> set jobs \<Longrightarrow> \<exists>e. process_run_jobs ev repo parent tr jobs = Inl e"
proof (induction jobs arbitrary: tr)
  case Nil
  then show ?case by simp
next
  case (Cons j jobs)
  show ?case
  proof (cases "process_job ev repo parent tr j")
    case (Inl e)
    then show ?thesis by simp
  next
    case (Inr r)
    obtain s tr1 where r: "r = (s, tr1)" by (cases r)
    from Inr r fails [of tr] have "j \<noteq> job" by auto
    with Cons.prems have "job \<in> set jobs" by simp
    then obtain e where "process_run_jobs ev repo parent tr1 jobs = Inl e"
      using Cons.IH by blast
    with Inr r show ?thesis by simp
  qed
qed

lemma process_jobs_loop_abort:
  assumes fails: "\<And>tr. \<exists>e. process_job ev repo parent tr job = Inl e"
    and job: "job \<in> set (run_jobs run)"
  shows "(run, parent) \<in> set pairs \<Longrightarrow> \<exists>e. process_jobs_loop ev repo tr pairs = Inl e"
proof (induction pairs arbitrary: tr)
  case Nil
  then show ?case by simp
next
  case (Cons pair pairs)
  obtain run1 parent1 where pair: "pair = (run1, parent1)" by (cases pair)
  show ?case
  proof (cases "process_run_jobs ev repo parent1 tr (run_jobs run1)")
    case (Inl e)
    with pair show ?thesis by simp
  next
    case (Inr r)
    obtain ss tr1 where r: "r = (ss, tr1)" by (cases r)
    have "(run1, parent1) \<noteq> (run, parent)"
    proof
      assume "(run1, parent1) = (run, parent)"
      with process_run_jobs_abort [of ev repo parent job "run_jobs run" tr, OF fails job] Inr
      show False by simp
    qed
    with Cons.prems pair have "(run, parent) \<in> set pairs" by auto
    then obtain e where "process_jobs_loop ev repo tr1 pairs = Inl e"
      using Cons.IH by blast
    with Inr r pair show ?thesis by simp
  qed
qed

text \<open>
  Claim C10. \<^verbatim>\<open>process_jobs\<close> converts the completion time of every job and ends every
  job span at it: a job span that is emitted has that end time, and no job span is left
  open. For a job without a completion time the body of the loop raises
  \<^verbatim>\<open>AttributeError\<close> (the conversion is applied to \<^verbatim>\<open>None\<close>), and \<^verbatim>\<open>process_jobs\<close> as a
  whole ends with an exception when such a job is among those it goes through.
\<close>

theorem job_span_always_ended:
  "(process_jobs ev tr runs run_spans repo = Inr (jobs, job_spans, tr') \<longrightarrow>
      list_all2 (\<lambda>job s. \<exists>t. convert_time (job_completed_at job) = Inr t \<and> end_time s = Some t
                   \<and> map_of (attributes s) ''job.completed_at'' = Some (AInt t))
        jobs job_spans)
   \<and> (job_completed_at job = None \<longrightarrow>
        process_job ev repo parent tr0 job = Inl AttributeError)
   \<and> ((run, parent) \<in> set (zip runs run_spans) \<and> job \<in> set (run_jobs run)
        \<and> job_completed_at job = None \<longrightarrow>
        (\<exists>e. process_jobs ev tr runs run_spans repo = Inl e))"
proof (intro conjI impI)
  assume "process_jobs ev tr runs run_spans repo = Inr (jobs, job_spans, tr')"
  then show "list_all2 (\<lambda>job s. \<exists>t. convert_time (job_completed_at job) = Inr t \<and> end_time s = Some t
                   \<and> map_of (attributes s) ''job.completed_at'' = Some (AInt t))
        jobs job_spans"
    by (rule process_jobs_all2 [rotated]) (rule process_job_ended)
next
  assume "job_completed_at job = None"
  then show "process_job ev repo parent tr0 job = Inl AttributeError"
    by (rule process_job_no_completion)
next
  assume a: "(run, parent) \<in> set (zip runs run_spans) \<and> job \<in> set (run_jobs run)
        \<and> job_completed_at job = None"
  then have "\<And>tr. \<exists>e. process_job ev repo parent tr job = Inl e"
    by (simp add: process_job_no_completion)
  with a show "\<exists>e. process_jobs ev tr runs run_spans repo = Inl e"
    unfolding process_jobs_def by (blast intro: process_jobs_loop_abort)
qed

lemma ex_process_jobs_running:
  "process_jobs ex_env ex_tracer_runs [ex_run_42, ex_run_running] ex_run_spans ex_repo
     = Inl AttributeError"
  by code_simp

text \<open>
  In the example every job span ends at the completion time of its job. With the job
  \<open>deploy\<close>, which is still running, in the second run, \<^verbatim>\<open>process_jobs\<close> raises.
\<close>

theorem job_span_always_ended_example:
  "process_jobs ex_env ex_tracer_runs [ex_run_42, ex_run_43] ex_run_spans ex_repo
     = Inr ([ex_job_build, ex_job_lint], ex_job_spans, ex_tracer_jobs)
   \<and> list_all2 (\<lambda>job s. \<exists>t. convert_time (job_completed_at job) = Inr t \<and> end_time s = Some t
                   \<and> map_of (attributes s) ''job.completed_at'' = Some (AInt t))
        [ex_job_build, ex_job_lint] ex_job_spans
   \<and> map end_time ex_job_spans = [Some 1704110460000000000, Some 1704110430000000000]
   \<and> job_completed_at ex_job_running = None
   \<and> process_job ex_env ex_repo (ex_run_spans ! 1) ex_tracer_runs ex_job_running
       = Inl AttributeError
   \<and> (ex_run_running, ex_run_spans ! 1) \<in> set (zip [ex_run_42, ex_run_running] ex_run_spans)
   \<and> ex_job_running \<in> set (run_jobs ex_run_running)
   \<and> process_jobs ex_env ex_tracer_runs [ex_run_42, ex_run_running] ex_run_spans ex_repo
       = Inl AttributeError"
proof -
  note inst1 = job_span_always_ended
    [where ev = ex_env and tr = ex_tracer_runs and runs = "[ex_run_42, ex_run_43]"
       and run_spans = ex_run_spans and repo = ex_repo
       and jobs = "[ex_job_build, ex_job_lint]" and job_spans = ex_job_spans
       and tr' = ex_tracer_jobs and job = ex_job_running and parent = "ex_run_spans ! 1"
       and ?tr0.0 = ex_tracer_runs]
  note inst2 = job_span_always_ended
    [where ev = ex_env and tr = ex_tracer_runs and runs = "[ex_run_42, ex_run_running]"
       and run_spans = ex_run_spans and repo = ex_repo
       and job = ex_job_running and parent = "ex_run_spans ! 1" and run = ex_run_running]
  have none: "job_completed_at ex_job_running = None"
    by (simp add: ex_job_running_def)
  have mem: "(ex_run_running, ex_run_spans ! 1) \<in> set (zip [ex_run_42, ex_run_running] ex_run_spans)"
    "ex_job_running \<in> set (run_jobs ex_run_running)"
    by (simp_all add: ex_run_spans_def ex_run_running_def)
  have ends: "map end_time ex_job_spans = [Some 1704110460000000000, Some 1704110430000000000]"
    by (simp add: ex_job_spans_def)
  from inst1 ex_process_jobs none have
    "list_all2 (\<lambda>job s. \<exists>t. convert_time (job_completed_at job) = Inr t \<and> end_time s = Some t
                   \<and> map_of (attributes s) ''job.completed_at'' = Some (AInt t))
        [ex_job_build, ex_job_lint] ex_job_spans"
    "process_job ex_env ex_repo (ex_run_spans ! 1) ex_tracer_runs ex_job_running
       = Inl AttributeError"
    by blast+
  moreover from inst2 none mem have
    "\<exists>e. process_jobs ex_env ex_tracer_runs [ex_run_42, ex_run_running] ex_run_spans ex_repo = Inl e"
    by blast
  ultimately show ?thesis
    using ex_process_jobs ex_process_jobs_running none mem ends by blast
qed

section \<open>Labels (C7)\<close>

lemma job_attributes_runs_on:
  "map_of (attributes (job_attributes ev repo job started completed created queue_time s))
       ''runs_on'' = map_of (attributes s) ''runs_on''"
  by (simp add: job_attributes_def Let_def split_def split: option.split)

lemma process_job_runs_on:
  assumes "process_job ev repo parent tr job = Inr (s, tr')"
  shows "\<exists>runs_on. join_empty (normalized_labels (job_labels job)) = Inr runs_on
           \<and> map_of (attributes s) ''runs_on'' = Some (AStr runs_on)"
proof -
  from assms obtain started completed created runs_on where
    j: "join_empty (normalized_labels (job_labels job)) = Inr runs_on" and
    s: "s = span_end
           (job_attributes ev repo job started completed created
              (true_div (started - created) 1000000000)
              (set_attribute (fst (start_as_current_span tr (job_name job) started (Some parent)))
                 ''runs_on'' (AStr runs_on)))
           completed"
    by (rule process_job_InrE)
  have "map_of (attributes s) ''runs_on'' = Some (AStr runs_on)"
    unfolding s by (simp only: span_end_frame job_attributes_runs_on) simp
  with j show ?thesis by blast
qed

text \<open>
  Claim C7. The normalisation of \<^verbatim>\<open>job.labels\<close> in \<^verbatim>\<open>process_jobs\<close> maps \<^verbatim>\<open>None\<close> to
  the empty list, leaves a list or a tuple as it is, and wraps any other value in a list
  of one element. The attribute \<^verbatim>\<open>runs_on\<close> of an emitted job span is the join of the
  normalised labels.
\<close>

theorem labels_normalized:
  "normalized_labels PNone = PList []
   \<and> normalized_labels (PList vs) = PList vs
   \<and> normalized_labels (PTuple vs) = PTuple vs
   \<and> (v \<noteq> PNone \<and> \<not> isinstance_list_tuple v \<longrightarrow> normalized_labels v = PList [v])
   \<and> (process_jobs ev tr runs run_spans repo = Inr (jobs, job_spans, tr') \<longrightarrow>
        list_all2 (\<lambda>job s. \<exists>runs_on.
                     join_empty (normalized_labels (job_labels job)) = Inr runs_on
                     \<and> map_of (attributes s) ''runs_on'' = Some (AStr runs_on))
          jobs job_spans)"
proof (intro conjI impI)
  assume "process_jobs ev tr runs run_spans repo = Inr (jobs, job_spans, tr')"
  then show "list_all2 (\<lambda>job s. \<exists>runs_on.
                     join_empty (normalized_labels (job_labels job)) = Inr runs_on
                     \<and> map_of (attributes s) ''runs_on'' = Some (AStr runs_on))
          jobs job_spans"
    by (rule process_jobs_all2 [rotated]) (rule process_job_runs_on)
qed (simp_all add: normalized_labels_def)

text \<open>
  A single label given as a string becomes a list of one string. In the example the job
  \<open>lint\<close> has no labels and its \<^verbatim>\<open>runs_on\<close> is the empty string.
\<close>

theorem labels_normalized_example:
  "PStr ''self-hosted'' \<noteq> PNone \<and> \<not> isinstance_list_tuple (PStr ''self-hosted'')
   \<and> normalized_labels (PStr ''self-hosted'') = PList [PStr ''self-hosted'']
   \<and> normalized_labels (PTuple [PStr ''linux'', PStr ''x64'']) = PTuple [PStr ''linux'', PStr ''x64'']
   \<and> process_jobs ex_env ex_tracer_runs [ex_run_42, ex_run_43] ex_run_spans ex_repo
       = Inr ([ex_job_build, ex_job_lint], ex_job_spans, ex_tracer_jobs)
   \<and> list_all2 (\<lambda>job s. \<exists>runs_on.
                     join_empty (normalized_labels (job_labels job)) = Inr runs_on
                     \<and> map_of (attributes s) ''runs_on'' = Some (AStr runs_on))
          [ex_job_build, ex_job_lint] ex_job_spans
   \<and> map job_labels [ex_job_build, ex_job_lint] = [PList [PStr ''ubuntu-latest''], PNone]
   \<and> map (\<lambda>s. map_of (attributes s) ''runs_on'') ex_job_spans
       = [Some (AStr ''ubuntu-latest''), Some (AStr '''')]"
proof -
  note inst = labels_normalized
    [where v = "PStr ''self-hosted''" and vs = "[PStr ''linux'', PStr ''x64'']"
       and ev = ex_env and tr = ex_tracer_runs and runs = "[ex_run_42, ex_run_43]"
       and run_spans = ex_run_spans and repo = ex_repo
       and jobs = "[ex_job_build, ex_job_lint]" and job_spans = ex_job_spans
       and tr' = ex_tracer_jobs]
  have "PStr ''self-hosted'' \<noteq> PNone \<and> \<not> isinstance_list_tuple (PStr ''self-hosted'')"
    by simp
  moreover have "map job_labels [ex_job_build, ex_job_lint] = [PList [PStr ''ubuntu-latest''], PNone]"
    "map (\<lambda>s. map_of (attributes s) ''runs_on'') ex_job_spans
       = [Some (AStr ''ubuntu-latest''), Some (AStr '''')]"
    by (simp_all add: ex_job_build_def ex_job_lint_def ex_job_spans_def)
  ultimately show ?thesis
    using inst ex_process_jobs by blast
qed

section \<open>The end of a run span (C2)\<close>

lemma run_attributes_end_time [simp]:
  "end_time (run_attributes ev w i run started completed s) = end_time s"
  by (simp add: run_attributes_def Let_def split: option.split)

lemma run_attributes_updated_at:
  "map_of (attributes (run_attributes ev w i run started completed s)) ''run.updated_at''
     = Some (attr_opt_int completed)"
  by (simp add: run_attributes_def Let_def split: option.split)

text \<open>
  What the source does with the end of a run span: it is ended at the converted
  \<^verbatim>\<open>updated_at\<close> when the status is \<^verbatim>\<open>"completed"\<close> and that number is not 0, and left
  open otherwise.
\<close>

lemma process_run_end_time:
  assumes "process_run ev w i tr run = Inr (s, tr')"
  shows "end_time s =
           (if run_status run = ''completed''
            then (case convert_time (run_updated_at run) of
                    Inl e \<Rightarrow> None
                  | Inr t \<Rightarrow> if t \<noteq> 0 then Some t else None)
            else None)"
  using assms
proof (rule process_run_InrE)
  fix started completed body
  assume c: "run_status run = ''completed'' \<Longrightarrow>
          \<exists>t. convert_time (run_updated_at run) = Inr t \<and> completed = Some t"
    and n: "run_status run \<noteq> ''completed'' \<Longrightarrow> completed = None"
    and body: "body = run_attributes ev w i run started completed
              (fst (start_as_current_span tr (run_display_name (run_path run)) started None))"
    and s: "s = (case completed of None \<Rightarrow> body | Some t \<Rightarrow> if t \<noteq> 0 then span_end body t else body)"
  have open_body: "end_time body = None"
    unfolding body by simp
  show ?thesis
  proof (cases "run_status run = ''completed''")
    case True
    with c obtain t where "convert_time (run_updated_at run) = Inr t" "completed = Some t"
      by blast
    with True open_body show ?thesis
      unfolding s by simp
  next
    case False
    with n open_body show ?thesis
      unfolding s by simp
  qed
qed

lemma run_span_end_time:
  assumes "process_runs ev tr w start end' = Inr (runs, run_spans, tr')"
  shows "list_all2 (\<lambda>run s. end_time s =
           (if run_status run = ''completed''
            then (case convert_time (run_updated_at run) of
                    Inl e \<Rightarrow> None
                  | Inr t \<Rightarrow> if t \<noteq> 0 then Some t else None)
            else None)) runs run_spans"
  using assms by (rule process_runs_all2 [rotated]) (rule process_run_end_time)

text \<open>
  Claim C2 says that the span of a run is ended, at the converted \<^verbatim>\<open>updated_at\<close>, exactly
  when the status of the run is \<^verbatim>\<open>"completed"\<close>. The source tests
  \<^verbatim>\<open>if run_completed_at:\<close>, which is false for the number 0 as it is for \<^verbatim>\<open>None\<close>: the run
  below is completed, its \<^verbatim>\<open>updated_at\<close> converts to 0, the attribute \<^verbatim>\<open>run.updated_at\<close>
  is set to 0, and the span is left open.
\<close>

theorem completed_run_left_open_at_epoch:
  "run_status ex_run_epoch = ''completed''
   \<and> convert_time (run_updated_at ex_run_epoch) = Inr 0
   \<and> map_sum id (\<lambda>(runs, run_spans, tr). (runs, map end_time run_spans))
        (process_runs ex_env ex_tracer ex_workflow_epoch None None)
       = Inr ([ex_run_epoch], [None])
   \<and> map_sum id (\<lambda>(runs, run_spans, tr). map (\<lambda>s. map_of (attributes s) ''run.updated_at'') run_spans)
        (process_runs ex_env ex_tracer ex_workflow_epoch None None)
       = Inr [Some (AInt 0)]"
  by code_simp

section \<open>The name of a run span (C5)\<close>

lemma split_str_nonempty [simp]: "split_str c s \<noteq> []"
  by (induction s) (auto split: list.splits)

lemma split_str_no_separator: "c \<notin> set s \<Longrightarrow> split_str c s = [s]"
  by (induction s) auto

lemma split_str_separator: "c \<in> set s \<Longrightarrow> tl (split_str c s) \<noteq> []"
  by (induction s) (auto split: list.splits)

lemma hd_split_str: "hd (split_str c s) = takeWhile (\<lambda>x. x \<noteq> c) s"
  by (induction s) (auto split: list.splits)

lemma takeWhile_until: "\<not> P c \<Longrightarrow> takeWhile P (ys @ c # zs) = takeWhile P ys"
  by (induction ys) auto

lemma takeWhile_no_separator: "c \<notin> set s \<Longrightarrow> takeWhile (\<lambda>x. x \<noteq> c) s = s"
  by (induction s) auto

lemma dropWhile_until: "c \<notin> set ys \<Longrightarrow> dropWhile (\<lambda>x. x \<noteq> c) (ys @ c # zs) = c # zs"
  by (induction ys) auto

lemma last_split_str: "last (split_str c s) = rev (takeWhile (\<lambda>x. x \<noteq> c) (rev s))"
proof (induction s)
  case Nil
  then show ?case by simp
next
  case (Cons x xs)
  show ?case
  proof (cases "x = c")
    case True
    then show ?thesis
      using Cons.IH by (simp add: takeWhile_until)
  next
    case False
    show ?thesis
    proof (cases "c \<in> set xs")
      case True
      then have "tl (split_str c xs) \<noteq> []"
        by (rule split_str_separator)
      then have "last (split_str c (x # xs)) = last (split_str c xs)"
        using False by (auto split: list.splits)
      moreover from True have "takeWhile (\<lambda>x. x \<noteq> c) (rev xs @ [x]) = takeWhile (\<lambda>x. x \<noteq> c) (rev xs)"
        by (simp add: takeWhile_append1)
      ultimately show ?thesis
        using Cons.IH by simp
    next
      case notin: False
      then have single: "split_str c xs = [xs]"
        by (rule split_str_no_separator)
      from notin False
      have whole: "takeWhile (\<lambda>x. x \<noteq> c) (rev xs @ [x]) = rev xs @ [x]"
        by (intro takeWhile_no_separator) auto
      show ?thesis
        using False by (simp add: single whole)
    qed
  qed
qed

lemma run_display_name_first_dot:
  "run_display_name path = takeWhile (\<lambda>c. c \<noteq> CHR ''.'') (basename path)"
  by (simp add: run_display_name_def basename_def hd_split_str last_split_str)

lemma strip_extension_one_dot:
  assumes "count_list name CHR ''.'' \<le> 1"
  shows "strip_extension name = takeWhile (\<lambda>c. c \<noteq> CHR ''.'') name"
proof (cases "CHR ''.'' \<in> set name")
  case False
  then have whole: "takeWhile (\<lambda>c. c \<noteq> CHR ''.'') name = name"
    by (rule takeWhile_no_separator)
  from False show ?thesis
    by (simp add: strip_extension_def whole)
next
  case True
  define a where "a = takeWhile (\<lambda>c. c \<noteq> CHR ''.'') name"
  define b where "b = tl (dropWhile (\<lambda>c. c \<noteq> CHR ''.'') name)"
  from True have "dropWhile (\<lambda>c. c \<noteq> CHR ''.'') name \<noteq> []"
    by (simp add: dropWhile_eq_Nil_conv)
  moreover from this have "hd (dropWhile (\<lambda>c. c \<noteq> CHR ''.'') name) = CHR ''.''"
    using hd_dropWhile [of "\<lambda>c. c \<noteq> CHR ''.''" name] by simp
  ultimately have drop: "dropWhile (\<lambda>c. c \<noteq> CHR ''.'') name = CHR ''.'' # b"
    unfolding b_def by (cases "dropWhile (\<lambda>c. c \<noteq> CHR ''.'') name") auto
  have name: "name = a @ CHR ''.'' # b"
    using takeWhile_dropWhile_id [of "\<lambda>c. c \<noteq> CHR ''.''" name] drop a_def by simp
  have "count_list name CHR ''.'' = count_list a CHR ''.'' + 1 + count_list b CHR ''.''"
    by (subst name) simp
  with assms have "count_list b CHR ''.'' = 0" by simp
  then have b: "CHR ''.'' \<notin> set b"
    by (simp add: count_list_0_iff)
  have "dropWhile (\<lambda>c. c \<noteq> CHR ''.'') (rev name) = CHR ''.'' # rev a"
    using b by (subst name) (simp add: dropWhile_until)
  with True show ?thesis
    by (simp add: strip_extension_def a_def)
qed

lemma process_run_span_name:
  assumes "process_run ev w i tr run = Inr (s, tr')"
  shows "span_name s = takeWhile (\<lambda>c. c \<noteq> CHR ''.'') (basename (run_path run))"
  using assms
proof (rule process_run_InrE)
  fix started completed body
  assume body: "body = run_attributes ev w i run started completed
              (fst (start_as_current_span tr (run_display_name (run_path run)) started None))"
    and s: "s = (case completed of None \<Rightarrow> body | Some t \<Rightarrow> if t \<noteq> 0 then span_end body t else body)"
  have "span_name body = run_display_name (run_path run)"
    unfolding body by (simp add: run_attributes_def Let_def split: option.split)
  then show ?thesis
    unfolding s by (simp add: run_display_name_first_dot split: option.split)
qed

text \<open>
  Claim C5 says that the name of a run span is the filename component of \<^verbatim>\<open>run.path\<close>
  with its extension stripped, so that \<^verbatim>\<open>my.workflow.yml\<close> gives \<^verbatim>\<open>my.workflow\<close>. The
  source keeps what precedes the first \<^verbatim>\<open>.\<close> of the filename: for that very filename the
  name is \<^verbatim>\<open>my\<close>.
\<close>

theorem run_name_counterexample:
  "basename ''.github/workflows/my.workflow.yml'' = ''my.workflow.yml''
   \<and> strip_extension (basename ''.github/workflows/my.workflow.yml'') = ''my.workflow''
   \<and> run_display_name ''.github/workflows/my.workflow.yml'' = ''my''
   \<and> run_display_name ''.github/workflows/my.workflow.yml''
       \<noteq> strip_extension (basename ''.github/workflows/my.workflow.yml'')"
  by code_simp

text \<open>
  Claim C5, amended. The name of a run span is the filename component of \<^verbatim>\<open>run.path\<close> cut
  at its first \<^verbatim>\<open>.\<close>; this is the filename with its extension stripped whenever the
  filename has at most one \<^verbatim>\<open>.\<close>.
\<close>

theorem run_name_cut_at_first_dot:
  "run_display_name path = takeWhile (\<lambda>c. c \<noteq> CHR ''.'') (basename path)
   \<and> (count_list (basename path) CHR ''.'' \<le> 1 \<longrightarrow>
        run_display_name path = strip_extension (basename path))
   \<and> (process_runs ev tr w start end' = Inr (runs, run_spans, tr') \<longrightarrow>
        list_all2 (\<lambda>run s. span_name s = takeWhile (\<lambda>c. c \<noteq> CHR ''.'') (basename (run_path run)))
          runs run_spans)"
proof (intro conjI impI)
  show "run_display_name path = takeWhile (\<lambda>c. c \<noteq> CHR ''.'') (basename path)"
    by (rule run_display_name_first_dot)
next
  assume "count_list (basename path) CHR ''.'' \<le> 1"
  then show "run_display_name path = strip_extension (basename path)"
    by (simp add: run_display_name_first_dot strip_extension_one_dot)
next
  assume "process_runs ev tr w start end' = Inr (runs, run_spans, tr')"
  then show "list_all2 (\<lambda>run s. span_name s = takeWhile (\<lambda>c. c \<noteq> CHR ''.'') (basename (run_path run)))
          runs run_spans"
    by (rule process_runs_all2 [rotated]) (rule process_run_span_name)
qed

text \<open>In the example the two run spans are named \<open>my\<close> and \<open>ci\<close>.\<close>

theorem run_name_cut_at_first_dot_example:
  "count_list (basename ''.github/workflows/ci.yml'') CHR ''.'' \<le> 1
   \<and> run_display_name ''.github/workflows/ci.yml'' = ''ci''
   \<and> run_display_name ''.github/workflows/ci.yml''
       = strip_extension (basename ''.github/workflows/ci.yml'')
   \<and> process_runs ex_env ex_tracer ex_workflow None None
       = Inr ([ex_run_42, ex_run_43], ex_run_spans, ex_tracer_runs)
   \<and> list_all2 (\<lambda>run s. span_name s = takeWhile (\<lambda>c. c \<noteq> CHR ''.'') (basename (run_path run)))
          [ex_run_42, ex_run_43] ex_run_spans
   \<and> map run_path [ex_run_42, ex_run_43]
       = [''.github/workflows/my.workflow.yml'', ''.github/workflows/ci.yml'']
   \<and> map span_name ex_run_spans = [''my'', ''ci'']"
proof -
  note inst = run_name_cut_at_first_dot
    [where path = "''.github/workflows/ci.yml''" and ev = ex_env and tr = ex_tracer
       and w = ex_workflow and start = None and end' = None
       and runs = "[ex_run_42, ex_run_43]" and run_spans = ex_run_spans
       and tr' = ex_tracer_runs]
  have "count_list (basename ''.github/workflows/ci.yml'') CHR ''.'' \<le> 1"
    by code_simp
  moreover have "run_display_name ''.github/workflows/ci.yml'' = ''ci''"
    by code_simp
  moreover have "map run_path [ex_run_42, ex_run_43]
       = [''.github/workflows/my.workflow.yml'', ''.github/workflows/ci.yml'']"
    "map span_name ex_run_spans = [''my'', ''ci'']"
    by (simp_all add: ex_run_42_def ex_run_43_def ex_run_spans_def)
  ultimately show ?thesis
    using inst ex_process_runs by metis
qed

section \<open>A half-specified date range (C4)\<close>

text \<open>
  Claim C4 says that with exactly one of \<^verbatim>\<open>start\<close> and \<^verbatim>\<open>end\<close> given, \<^verbatim>\<open>get_args\<close>
  halts before any call to the client, whatever the other arguments, an absent \<^verbatim>\<open>org\<close>
  included. The source resolves an absent \<^verbatim>\<open>org\<close> through the client before it looks at
  the dates: with the arguments below it calls \<^verbatim>\<open>g.get_user()\<close> and reads \<^verbatim>\<open>user.login\<close>,
  and halts only then.
\<close>

theorem half_range_counterexample:
  "half_specified ex_kwargs_half
   \<and> kwargs_get ex_kwargs_half ''org'' = PNone
   \<and> get_args ex_github ex_kwargs_half = ([GetUser, GetLogin], Inl SystemExit)"
  by code_simp

text \<open>
  Claim C4, amended. With exactly one of \<^verbatim>\<open>start\<close> and \<^verbatim>\<open>end\<close> given, \<^verbatim>\<open>get_args\<close> never
  returns arguments. When \<^verbatim>\<open>repo\<close> or \<^verbatim>\<open>workflow\<close> is missing, or \<^verbatim>\<open>org\<close> is given, it
  halts without any call to the client. When \<^verbatim>\<open>repo\<close> and \<^verbatim>\<open>workflow\<close> are given and
  \<^verbatim>\<open>org\<close> is absent, it first asks the client for the authenticated user and the user's
  login, and halts once it has them; an exception of the client in either call is passed
  on instead.
\<close>

theorem half_range_halts:
  "half_specified kwargs \<longrightarrow>
     (kwargs_get kwargs ''repo'' = PNone \<or> kwargs_get kwargs ''workflow'' = PNone
        \<or> kwargs_get kwargs ''org'' \<noteq> PNone \<longrightarrow>
      get_args g kwargs = ([], Inl SystemExit))
   \<and> (kwargs_get kwargs ''repo'' \<noteq> PNone \<and> kwargs_get kwargs ''workflow'' \<noteq> PNone
        \<and> kwargs_get kwargs ''org'' = PNone \<longrightarrow>
      get_args g kwargs =
        (case get_user g of
           Inl e \<Rightarrow> ([GetUser], Inl (Raised e))
         | Inr user \<Rightarrow>
             (case login user of
                Inl e \<Rightarrow> ([GetUser, GetLogin], Inl (Raised e))
              | Inr name \<Rightarrow> ([GetUser, GetLogin], Inl SystemExit))))"
proof (intro impI conjI)
  assume half: "half_specified kwargs"
  then have dates: "(kwargs_get kwargs ''start'' = PNone \<and> kwargs_get kwargs ''end'' \<noteq> PNone)
      \<or> (kwargs_get kwargs ''start'' \<noteq> PNone \<and> kwargs_get kwargs ''end'' = PNone)"
    unfolding half_specified_def by blast
  {
    assume "kwargs_get kwargs ''repo'' = PNone \<or> kwargs_get kwargs ''workflow'' = PNone
        \<or> kwargs_get kwargs ''org'' \<noteq> PNone"
    with dates show "get_args g kwargs = ([], Inl SystemExit)"
      by (auto simp: get_args_def Let_def)
  next
    assume "kwargs_get kwargs ''repo'' \<noteq> PNone \<and> kwargs_get kwargs ''workflow'' \<noteq> PNone
        \<and> kwargs_get kwargs ''org'' = PNone"
    with dates show "get_args g kwargs =
        (case get_user g of
           Inl e \<Rightarrow> ([GetUser], Inl (Raised e))
         | Inr user \<Rightarrow>
             (case login user of
                Inl e \<Rightarrow> ([GetUser, GetLogin], Inl (Raised e))
              | Inr name \<Rightarrow> ([GetUser, GetLogin], Inl SystemExit)))"
      by (auto simp: get_args_def default_org_def Let_def split: sum.splits)
  }
qed

text \<open>
  With an organisation given there is no call before the halt; without one there are
  two.
\<close>

theorem half_range_halts_example:
  "half_specified ex_kwargs_half_org
   \<and> kwargs_get ex_kwargs_half_org ''org'' \<noteq> PNone
   \<and> get_args ex_github ex_kwargs_half_org = ([], Inl SystemExit)
   \<and> half_specified ex_kwargs_half
   \<and> kwargs_get ex_kwargs_half ''repo'' \<noteq> PNone
   \<and> kwargs_get ex_kwargs_half ''workflow'' \<noteq> PNone
   \<and> kwargs_get ex_kwargs_half ''org'' = PNone
   \<and> get_args ex_github ex_kwargs_half
       = (case get_user ex_github of
            Inl e \<Rightarrow> ([GetUser], Inl (Raised e))
          | Inr user \<Rightarrow>
              (case login user of
                 Inl e \<Rightarrow> ([GetUser, GetLogin], Inl (Raised e))
               | Inr name \<Rightarrow> ([GetUser, GetLogin], Inl SystemExit)))"
proof -
  have a: "half_specified ex_kwargs_half_org" "kwargs_get ex_kwargs_half_org ''org'' \<noteq> PNone"
    by code_simp+
  have b: "half_specified ex_kwargs_half" "kwargs_get ex_kwargs_half ''repo'' \<noteq> PNone"
    "kwargs_get ex_kwargs_half ''workflow'' \<noteq> PNone" "kwargs_get ex_kwargs_half ''org'' = PNone"
    by code_simp+
  from a half_range_halts [of ex_kwargs_half_org ex_github]
  have "get_args ex_github ex_kwargs_half_org = ([], Inl SystemExit)"
    by blast
  moreover from b half_range_halts [of ex_kwargs_half ex_github]
  have "get_args ex_github ex_kwargs_half
       = (case get_user ex_github of
            Inl e \<Rightarrow> ([GetUser], Inl (Raised e))
          | Inr user \<Rightarrow>
              (case login user of
                 Inl e \<Rightarrow> ([GetUser, GetLogin], Inl (Raised e))
               | Inr name \<Rightarrow> ([GetUser, GetLogin], Inl SystemExit)))"
    by blast
  ultimately show ?thesis
    using a b by blast
qed

section \<open>Failures of the annotation look-up (C6)\<close>












section \<open>The conversion of time stamps\<close>

text \<open>The integer logarithm used for the exponent of a float.\<close>

lemma ilog2_bounds:
  "1 \<le> n \<Longrightarrow> 0 \<le> ilog2 n \<and> 2 ^ nat (ilog2 n) \<le> n \<and> n < 2 ^ nat (ilog2 n + 1)"
proof (induction n rule: ilog2.induct)
  case (1 n)
  show ?case
  proof (cases "n < 2")
    case True
    with "1.prems" show ?thesis
      by (simp add: ilog2.simps [of n])
  next
    case False
    then have half: "1 \<le> n div 2" by simp
    from "1.IH" [OF False half] have
      ih: "0 \<le> ilog2 (n div 2)" "2 ^ nat (ilog2 (n div 2)) \<le> n div 2"
        "n div 2 < 2 ^ nat (ilog2 (n div 2) + 1)"
      by simp_all
    have eq: "ilog2 n = ilog2 (n div 2) + 1"
      using False by (simp add: ilog2.simps [of n])
    have nat_eq: "nat (ilog2 (n div 2) + 1) = Suc (nat (ilog2 (n div 2)))"
      using ih(1) by simp
    have "2 ^ nat (ilog2 n) \<le> n"
      using ih(2) unfolding eq nat_eq by simp
    moreover have "n < 2 ^ nat (ilog2 n + 1)"
    proof -
      have "nat (ilog2 n + 1) = Suc (Suc (nat (ilog2 (n div 2))))"
        using ih(1) unfolding eq by simp
      moreover have "n < 2 * 2 ^ nat (ilog2 (n div 2) + 1)"
        using ih(3) by linarith
      ultimately show ?thesis
        unfolding nat_eq by simp
    qed
    ultimately show ?thesis
      using ih(1) eq by simp
  qed
qed

text \<open>The exponent of a rational: \<open>2 ^ e \<le> |x| < 2 ^ (e + 1)\<close>.\<close>

lemma float_exponent_large:
  fixes x :: rat
  assumes "1 \<le> \<bar>x\<bar>"
  shows "2 powi float_exponent x \<le> \<bar>x\<bar>" and "\<bar>x\<bar> < 2 powi (float_exponent x + 1)"
proof -
  define n where "n = \<lfloor>\<bar>x\<bar>\<rfloor>"
  have n1: "1 \<le> n" using assms unfolding n_def by simp
  have e: "float_exponent x = ilog2 n"
    using assms by (simp add: float_exponent_def n_def)
  from ilog2_bounds [OF n1] have
    nn: "0 \<le> ilog2 n" and lo: "2 ^ nat (ilog2 n) \<le> n" and hi: "n < 2 ^ nat (ilog2 n + 1)"
    by simp_all
  have "(2::rat) powi ilog2 n = of_int (2 ^ nat (ilog2 n))"
    using nn by (simp add: power_int_def)
  also have "\<dots> \<le> of_int n"
    using lo by (simp only: of_int_le_iff)
  also have "\<dots> \<le> \<bar>x\<bar>"
    unfolding n_def by simp
  finally show "2 powi float_exponent x \<le> \<bar>x\<bar>"
    unfolding e .
  have "\<bar>x\<bar> < of_int (n + 1)"
    unfolding n_def by linarith
  also have "\<dots> \<le> of_int (2 ^ nat (ilog2 n + 1))"
    using hi by (simp only: of_int_le_iff)
  also have "\<dots> = (2::rat) powi (ilog2 n + 1)"
    using nn by (simp add: power_int_def)
  finally show "\<bar>x\<bar> < 2 powi (float_exponent x + 1)"
    unfolding e .
qed

lemma float_exponent_small:
  fixes x :: rat
  assumes "x \<noteq> 0" "\<bar>x\<bar> < 1"
  shows "2 powi float_exponent x \<le> \<bar>x\<bar>" and "\<bar>x\<bar> < 2 powi (float_exponent x + 1)"
proof -
  define y where "y = 1 / \<bar>x\<bar>"
  define m where "m = \<lceil>y\<rceil> - 1"
  have pos: "0 < \<bar>x\<bar>" using assms(1) by simp
  have y1: "1 < y"
    using assms(2) pos unfolding y_def by (simp add: field_simps)
  have m1: "1 \<le> m"
    using y1 unfolding m_def by linarith
  have ym: "of_int m < y" "y \<le> of_int m + 1"
    unfolding m_def by linarith+
  have e: "float_exponent x = - (ilog2 m + 1)"
    using assms(2) m1 by (simp add: float_exponent_def clog2_def y_def m_def)
  from ilog2_bounds [OF m1] have
    nn: "0 \<le> ilog2 m" and lo: "2 ^ nat (ilog2 m) \<le> m" and hi: "m < 2 ^ nat (ilog2 m + 1)"
    by simp_all
  have p1: "(2::rat) powi (ilog2 m + 1) = of_int (2 ^ nat (ilog2 m + 1))"
    using nn by (simp add: power_int_def)
  have p0: "(2::rat) powi ilog2 m = of_int (2 ^ nat (ilog2 m))"
    using nn by (simp add: power_int_def)
  have "y \<le> of_int (m + 1)"
    using ym(2) by simp
  also have "\<dots> \<le> of_int (2 ^ nat (ilog2 m + 1))"
    using hi by (simp only: of_int_le_iff)
  finally have "y \<le> 2 powi (ilog2 m + 1)"
    unfolding p1 .
  then have "1 \<le> \<bar>x\<bar> * 2 powi (ilog2 m + 1)"
    using pos unfolding y_def by (simp add: field_simps)
  then have "1 / 2 powi (ilog2 m + 1) \<le> \<bar>x\<bar>"
    by (simp add: field_simps)
  moreover have "(2::rat) powi float_exponent x = 1 / 2 powi (ilog2 m + 1)"
    unfolding e by (rule power_int_minus_divide)
  ultimately show "2 powi float_exponent x \<le> \<bar>x\<bar>"
    by simp
  have "(2::rat) powi ilog2 m \<le> of_int m"
    unfolding p0 using lo by (simp only: of_int_le_iff)
  also have "\<dots> < y"
    by (rule ym(1))
  finally have "2 powi ilog2 m < y" .
  then have "\<bar>x\<bar> * 2 powi ilog2 m < 1"
    using pos unfolding y_def by (simp add: field_simps)
  then have "\<bar>x\<bar> < 1 / 2 powi ilog2 m"
    by (simp add: field_simps)
  moreover have "float_exponent x + 1 = - ilog2 m"
    unfolding e by simp
  then have "(2::rat) powi (float_exponent x + 1) = 1 / 2 powi ilog2 m"
    by (simp only: power_int_minus_divide)
  ultimately show "\<bar>x\<bar> < 2 powi (float_exponent x + 1)"
    by simp
qed

lemma float_exponent_bounds:
  fixes x :: rat
  assumes "x \<noteq> 0"
  shows "2 powi float_exponent x \<le> \<bar>x\<bar>" and "\<bar>x\<bar> < 2 powi (float_exponent x + 1)"
  using assms float_exponent_large [of x] float_exponent_small [of x]
  by (cases "1 \<le> \<bar>x\<bar>"; simp)+

lemma power_int_less_exponent:
  fixes a :: rat
  assumes "1 \<le> a" "a powi m < a powi n"
  shows "m < n"
proof (rule ccontr)
  assume "\<not> m < n"
  then have "n \<le> m" by simp
  then have "a powi n \<le> a powi m"
    using assms(1) by (rule power_int_increasing)
  with assms(2) show False by simp
qed

lemma float_exponent_less:
  fixes x :: rat
  assumes "x \<noteq> 0" "\<bar>x\<bar> < 2 powi k"
  shows "float_exponent x < k"
proof -
  have "2 powi float_exponent x \<le> \<bar>x\<bar>"
    using assms(1) by (rule float_exponent_bounds)
  with assms(2) have "(2::rat) powi float_exponent x < 2 powi k"
    by simp
  then show ?thesis
    by (rule power_int_less_exponent [rotated]) simp
qed

text \<open>Rounding to the nearest integer moves a number by a half at most, and an integer not at all.\<close>

lemma round_half_even_error: "\<bar>of_int (round_half_even x) - x\<bar> \<le> 1 / 2"
proof -
  have "of_int \<lfloor>x\<rfloor> \<le> x" "x < of_int \<lfloor>x\<rfloor> + 1"
    by linarith+
  then show ?thesis
    unfolding round_half_even_def Let_def by (auto simp: abs_le_iff) 
qed

lemma round_half_even_of_int [simp]: "round_half_even (of_int n) = n"
  by (simp add: round_half_even_def)

text \<open>
  Rounding to a double moves a number \<open>x\<close> with \<open>|x| < 2 ^ k\<close> by \<open>2 ^ (k - 54)\<close> at most,
  and leaves a number with a significand of at most 53 bits as it is.
\<close>

lemma round_double_error:
  assumes "\<bar>x\<bar> < 2 powi k"
  shows "\<bar>round_double x - x\<bar> \<le> 2 powi (k - 54)"
proof (cases "x = 0")
  case True
  then show ?thesis by (simp add: round_double_def)
next
  case False
  define u :: rat where "u = 2 powi (float_exponent x - 52)"
  have u: "0 < u" unfolding u_def by (simp add: zero_less_power_int)
  have r: "round_double x = of_int (round_half_even (x / u)) * u"
    using False by (simp add: round_double_def Let_def u_def)
  have "round_double x - x = (of_int (round_half_even (x / u)) - x / u) * u"
    unfolding r using u by (simp add: field_simps)
  then have "\<bar>round_double x - x\<bar> = \<bar>of_int (round_half_even (x / u)) - x / u\<bar> * u"
    using u by (simp add: abs_mult)
  also have "\<dots> \<le> (1 / 2) * u"
    using u round_half_even_error [of "x / u"] by (intro mult_right_mono) simp_all
  also have "\<dots> = 2 powi (float_exponent x - 53)"
  proof -
    have "(2::rat) powi (float_exponent x - 52) = 2 powi (float_exponent x - 53 + 1)"
      by simp
    also have "\<dots> = 2 powi (float_exponent x - 53) * 2"
      by (subst power_int_add) simp_all
    finally show ?thesis
      unfolding u_def by simp
  qed
  also have "\<dots> \<le> 2 powi (k - 54)"
  proof -
    from False assms have "float_exponent x < k"
      by (rule float_exponent_less)
    then have "float_exponent x - 53 \<le> k - 54" by simp
    then show ?thesis
      by (rule power_int_increasing) simp
  qed
  finally show ?thesis .
qed

lemma round_double_exact:
  assumes "\<bar>m\<bar> < 2 ^ 53"
  shows "round_double (of_int m * 2 powi j) = of_int m * 2 powi j"
proof (cases "m = 0")
  case True
  then show ?thesis by (simp add: round_double_def)
next
  case False
  define x :: rat where "x = of_int m * 2 powi j"
  define e where "e = float_exponent x"
  have x0: "x \<noteq> 0"
    using False unfolding x_def by simp
  have "2 powi e \<le> \<bar>x\<bar>"
    unfolding e_def using x0 by (rule float_exponent_bounds)
  also have "\<bar>x\<bar> = of_int \<bar>m\<bar> * 2 powi j"
    unfolding x_def by (simp add: abs_mult power_int_abs)
  also have "\<dots> < of_int (2 ^ 53) * 2 powi j"
  proof (rule mult_strict_right_mono)
    show "(of_int \<bar>m\<bar> :: rat) < of_int (2 ^ 53)"
      using assms by (simp only: of_int_less_iff)
    show "(0::rat) < 2 powi j"
      by (simp add: zero_less_power_int)
  qed
  also have "\<dots> = 2 powi (53 + j)"
    by (subst power_int_add) simp_all
  finally have "e < 53 + j"
    by (rule power_int_less_exponent [rotated]) simp
  then have d: "0 \<le> j - (e - 52)" by simp
  have "x / 2 powi (e - 52) = of_int m * 2 powi (j - (e - 52))"
    unfolding x_def by (subst power_int_diff) simp_all
  also have "\<dots> = of_int (m * 2 ^ nat (j - (e - 52)))"
    using d by (simp add: power_int_def)
  finally have q: "x / 2 powi (e - 52) = of_int (m * 2 ^ nat (j - (e - 52)))" .
  have "round_double x = of_int (round_half_even (x / 2 powi (e - 52))) * 2 powi (e - 52)"
    using x0 by (simp add: round_double_def Let_def e_def)
  also have "\<dots> = x / 2 powi (e - 52) * 2 powi (e - 52)"
    unfolding q round_half_even_of_int ..
  also have "\<dots> = x"
    by simp
  finally show ?thesis
    unfolding x_def .
qed

lemma int_of_float_error: "\<bar>of_int (int_of_float x) - x\<bar> < 1"
  unfolding int_of_float_def by (auto simp: abs_less_iff; linarith)

lemma int_of_float_of_int [simp]: "int_of_float (of_int n) = n"
  by (simp add: int_of_float_def)

lemma timestamp_round: "timestamp t = round_double (of_int (epoch_us t) / 1000000)"
  by (simp add: timestamp_def true_div_def)

lemma timestamp_error:
  assumes "within_range t"
  shows "\<bar>timestamp t - of_int (epoch_us t) / 1000000\<bar> \<le> 1 / 4194304"
proof -
  have "\<bar>(of_int (epoch_us t) :: rat)\<bar> < 4294967296000000"
    using assms unfolding within_range_def
    by (metis of_int_abs of_int_less_iff of_int_numeral)
  then have "\<bar>(of_int (epoch_us t) :: rat) / 1000000\<bar> < 2 powi 32"
    by simp
  then have "\<bar>round_double (of_int (epoch_us t) / 1000000) - of_int (epoch_us t) / 1000000\<bar>
               \<le> 2 powi (32 - 54)"
    by (rule round_double_error)
  then show ?thesis
    unfolding timestamp_round by simp
qed

text \<open>
  The product with \<^verbatim>\<open>1e9\<close> stays below \<open>2 ^ 62\<close>, where doubles are 512 apart, so the
  number returned is within 495 of the exact count of nanoseconds.
\<close>

lemma float_mul_error:
  assumes "within_range t"
  shows "\<bar>float_mul (timestamp t) 1000000000 - of_int (1000 * epoch_us t)\<bar> \<le> 256 + 1000000000 / 4194304"
proof -
  define exact :: rat where "exact = of_int (epoch_us t) / 1000000"
  define ts where "ts = timestamp t"
  have e1: "\<bar>ts - exact\<bar> \<le> 1 / 4194304"
    unfolding ts_def exact_def using assms by (rule timestamp_error)
  have "\<bar>(of_int (epoch_us t) :: rat)\<bar> < 4294967296000000"
    using assms unfolding within_range_def
    by (metis of_int_abs of_int_less_iff of_int_numeral)
  then have ex: "\<bar>exact\<bar> < 4294967296"
    unfolding exact_def by simp
  have "\<bar>ts\<bar> \<le> \<bar>exact\<bar> + \<bar>ts - exact\<bar>"
    by simp
  with e1 ex have tsb: "\<bar>ts\<bar> < 4294967297"
    by simp
  have "\<bar>ts * 1000000000\<bar> = \<bar>ts\<bar> * 1000000000"
    by (simp add: abs_mult)
  also have "\<dots> < 4294967297 * 1000000000"
    using tsb by simp
  also have "\<dots> \<le> 2 powi 62"
    by simp
  finally have "\<bar>round_double (ts * 1000000000) - ts * 1000000000\<bar> \<le> 2 powi (62 - 54)"
    by (rule round_double_error)
  then have e2: "\<bar>float_mul ts 1000000000 - ts * 1000000000\<bar> \<le> 256"
    unfolding float_mul_def by simp
  have "(of_int (1000 * epoch_us t) :: rat) = exact * 1000000000"
    unfolding exact_def by simp
  then have "float_mul ts 1000000000 - of_int (1000 * epoch_us t)
      = (float_mul ts 1000000000 - ts * 1000000000) + (ts - exact) * 1000000000"
    by (simp add: algebra_simps)
  then have "\<bar>float_mul ts 1000000000 - of_int (1000 * epoch_us t)\<bar>
      \<le> \<bar>float_mul ts 1000000000 - ts * 1000000000\<bar> + \<bar>(ts - exact) * 1000000000\<bar>"
    by simp
  also have "\<bar>(ts - exact) * 1000000000\<bar> = \<bar>ts - exact\<bar> * 1000000000"
    by (subst abs_mult) simp
  finally have "\<bar>float_mul ts 1000000000 - of_int (1000 * epoch_us t)\<bar>
      \<le> \<bar>float_mul ts 1000000000 - ts * 1000000000\<bar> + \<bar>ts - exact\<bar> * 1000000000" .
  with e1 e2 show ?thesis
    unfolding ts_def by simp
qed

lemma convert_time_error:
  assumes "within_range t" "convert_time (Some t) = Inr n"
  shows "\<bar>n - 1000 * epoch_us t\<bar> \<le> 495"
proof -
  define r where "r = float_mul (timestamp t) 1000000000"
  have n: "n = int_of_float r"
    using assms(2) by (simp add: convert_time_def r_def)
  have "\<bar>r - of_int (1000 * epoch_us t)\<bar> \<le> 256 + 1000000000 / 4194304"
    unfolding r_def using assms(1) by (rule float_mul_error)
  moreover have "\<bar>of_int n - r\<bar> < 1"
    unfolding n by (rule int_of_float_error)
  moreover have "\<bar>(of_int n :: rat) - of_int (1000 * epoch_us t)\<bar>
      \<le> \<bar>of_int n - r\<bar> + \<bar>r - of_int (1000 * epoch_us t)\<bar>"
    by linarith
  ultimately have "\<bar>(of_int n :: rat) - of_int (1000 * epoch_us t)\<bar> < 496"
    by linarith
  then have "\<bar>(of_int (n - 1000 * epoch_us t) :: rat)\<bar> < of_int 496"
    by simp
  then have "\<bar>n - 1000 * epoch_us t\<bar> < 496"
    by (simp only: of_int_abs [symmetric] of_int_less_iff)
  then show ?thesis by simp
qed

text \<open>A datetime on a whole second is converted exactly.\<close>

lemma convert_time_whole_second:
  assumes "\<bar>s\<bar> < 4294967296"
  shows "convert_time (Some (Datetime (1000000 * s))) = Inr (1000000000 * s)"
proof -
  have s53: "\<bar>s\<bar> < 2 ^ 53"
    using assms by simp
  have "timestamp (Datetime (1000000 * s)) = round_double (of_int s * 2 powi 0)"
    by (simp add: timestamp_round)
  also have "\<dots> = of_int s * 2 powi 0"
    using s53 by (rule round_double_exact)
  finally have ts: "timestamp (Datetime (1000000 * s)) = of_int s"
    by simp
  have "\<bar>s * 1953125\<bar> < 2 ^ 53"
    using assms by simp
  then have "round_double (of_int (s * 1953125) * 2 powi 9) = of_int (s * 1953125) * 2 powi 9"
    by (rule round_double_exact)
  moreover have "(of_int (s * 1953125) :: rat) * 2 powi 9 = of_int s * 1000000000"
    by simp
  ultimately have fm: "float_mul (of_int s) 1000000000 = of_int (1000000000 * s)"
    unfolding float_mul_def by (simp add: mult.commute)
  have "convert_time (Some (Datetime (1000000 * s)))
      = Inr (int_of_float (float_mul (timestamp (Datetime (1000000 * s))) 1000000000))"
    by (simp add: convert_time_def)
  then show ?thesis
    by (simp only: ts fm int_of_float_of_int)
qed

lemma convert_time_monotone:
  assumes "within_range a" "within_range b" "epoch_us a < epoch_us b"
    and "convert_time (Some a) = Inr m" "convert_time (Some b) = Inr n"
  shows "m < n"
proof -
  have "\<bar>m - 1000 * epoch_us a\<bar> \<le> 495" "\<bar>n - 1000 * epoch_us b\<bar> \<le> 495"
    using assms by (simp_all add: convert_time_error)
  with assms(3) show ?thesis by linarith
qed

lemma convert_time_seconds:
  assumes "within_range t" "convert_time (Some t) = Inr n"
  shows "n div 1000000000 = epoch_us t div 1000000"
proof (cases "epoch_us t mod 1000000 = 0")
  case True
  define s where "s = epoch_us t div 1000000"
  have us: "epoch_us t = 1000000 * s"
    using True unfolding s_def by (simp add: mod_0_imp_dvd)
  then have t: "t = Datetime (1000000 * s)"
    by (cases t) simp
  have "\<bar>s\<bar> < 4294967296"
    using assms(1) us unfolding within_range_def by linarith
  then have "convert_time (Some t) = Inr (1000000000 * s)"
    unfolding t by (rule convert_time_whole_second)
  with assms(2) have "n = 1000000000 * s" by simp
  then show ?thesis
    unfolding s_def by simp
next
  case False
  define q where "q = epoch_us t div 1000000"
  define r where "r = epoch_us t mod 1000000"
  have us: "epoch_us t = 1000000 * q + r"
    unfolding q_def r_def by simp
  have "0 \<le> r" "r < 1000000"
    unfolding r_def by simp_all
  with False have r: "1 \<le> r" "r \<le> 999999"
    unfolding r_def by simp_all
  have err: "\<bar>n - 1000 * epoch_us t\<bar> \<le> 495"
    using assms by (rule convert_time_error)
  define d where "d = n - 1000000000 * q"
  have d: "0 \<le> d" "d < 1000000000"
    using err us r unfolding d_def by linarith+
  have "n = d + q * 1000000000"
    unfolding d_def by simp
  then have "n div 1000000000 = q + d div 1000000000"
    by simp
  also have "d div 1000000000 = 0"
    using d by (rule div_pos_pos_trivial)
  finally show ?thesis
    unfolding q_def by simp
qed

subsection \<open>The claims on the conversion (C3, C9)\<close>

text \<open>
  Claim C3 says that \<^verbatim>\<open>convert_time\<close> returns a count of nanoseconds for a time stamp
  that is present and a value standing for "absent" for \<^verbatim>\<open>None\<close>, and never fails. The
  source has no case for \<^verbatim>\<open>None\<close>: it calls \<^verbatim>\<open>time.timestamp()\<close>, which raises.
\<close>

theorem convert_time_absent_raises: "convert_time None = Inl AttributeError"
  by (simp add: convert_time_def)

text \<open>
  Claim C3, amended. Given a time stamp that is present, \<^verbatim>\<open>convert_time\<close> returns an
  integer, which is within 495 of the exact count of nanoseconds since the epoch when the
  time stamp is within \<open>2 ^ 32\<close> seconds of the epoch; given \<^verbatim>\<open>None\<close> it raises
  \<^verbatim>\<open>AttributeError\<close>.
\<close>

theorem convert_time_present_or_raises:
  "(\<exists>n. convert_time (Some t) = Inr n
        \<and> (within_range t \<longrightarrow> \<bar>n - 1000 * epoch_us t\<bar> \<le> 495))
   \<and> convert_time None = Inl AttributeError"
proof -
  obtain n where n: "convert_time (Some t) = Inr n"
    by (simp add: convert_time_def)
  then have "within_range t \<longrightarrow> \<bar>n - 1000 * epoch_us t\<bar> \<le> 495"
    by (simp add: convert_time_error)
  with n show ?thesis
    by (auto simp: convert_time_def)
qed

text \<open>1 January 2024, 12:00:00.123456 UTC is converted exactly.\<close>

theorem convert_time_present_example:
  "within_range (Datetime 1704110400123456)
   \<and> convert_time (Some (Datetime 1704110400123456)) = Inr 1704110400123456000
   \<and> \<bar>1704110400123456000 - 1000 * epoch_us (Datetime 1704110400123456)\<bar> \<le> 495"
proof -
  have r: "within_range (Datetime 1704110400123456)"
    by code_simp
  have c: "convert_time (Some (Datetime 1704110400123456)) = Inr 1704110400123456000"
    by code_simp
  from convert_time_present_or_raises [of "Datetime 1704110400123456"] r c
  show ?thesis by auto
qed

text \<open>
  Claim C9 says that \<^verbatim>\<open>convert_time\<close> is strictly monotonic on all time stamps and that
  its result gives back the second of the time stamp. The conversion goes through
  floats. On 1 January 2200 two time stamps one microsecond apart are converted to the
  same number; one microsecond before 08:51:26 on 24 November 3000 the result is
  already in the next second.
\<close>

theorem convert_time_counterexample:
  "epoch_us (Datetime 7258118400000007) < epoch_us (Datetime 7258118400000008)
   \<and> convert_time (Some (Datetime 7258118400000007)) = Inr 7258118400000007168
   \<and> convert_time (Some (Datetime 7258118400000008)) = Inr 7258118400000007168
   \<and> convert_time (Some (Datetime 32531964685999999)) = Inr 32531964686000001024
   \<and> epoch_us (Datetime 32531964685999999) div 1000000 = 32531964685
   \<and> 32531964686000001024 div 1000000000 = (32531964686 :: int)"
  by code_simp

text \<open>
  Claim C9, amended. On time stamps within \<open>2 ^ 32\<close> seconds of the epoch (from
  24 November 1833 to 7 February 2106) \<^verbatim>\<open>convert_time\<close> is strictly monotonic, the whole
  seconds of its result are those of the time stamp, and a time stamp on a whole second is
  converted exactly.
\<close>

theorem convert_time_monotone_within_range:
  "within_range a \<and> within_range b
   \<and> convert_time (Some a) = Inr m \<and> convert_time (Some b) = Inr n \<longrightarrow>
     (epoch_us a < epoch_us b \<longrightarrow> m < n)
     \<and> m div 1000000000 = epoch_us a div 1000000
     \<and> (epoch_us a mod 1000000 = 0 \<longrightarrow> m = 1000 * epoch_us a)"
proof (intro impI conjI)
  assume a: "within_range a \<and> within_range b
    \<and> convert_time (Some a) = Inr m \<and> convert_time (Some b) = Inr n"
  {
    assume "epoch_us a < epoch_us b"
    with a show "m < n"
      by (blast intro: convert_time_monotone)
  next
    from a show "m div 1000000000 = epoch_us a div 1000000"
      by (blast intro: convert_time_seconds)
  next
    assume whole: "epoch_us a mod 1000000 = 0"
    define s where "s = epoch_us a div 1000000"
    have us: "epoch_us a = 1000000 * s"
      using whole unfolding s_def by (simp add: mod_0_imp_dvd)
    then have t: "a = Datetime (1000000 * s)"
      by (cases a) simp
    have "\<bar>s\<bar> < 4294967296"
      using a us unfolding within_range_def by linarith
    then have "convert_time (Some a) = Inr (1000000000 * s)"
      unfolding t by (rule convert_time_whole_second)
    with a us show "m = 1000 * epoch_us a"
      by simp
  }
qed

text \<open>
  Two time stamps of 1 January 2024, one microsecond apart, and the whole second before
  them.
\<close>

theorem convert_time_monotone_example:
  "within_range (Datetime 1704110400123456) \<and> within_range (Datetime 1704110400123457)
   \<and> convert_time (Some (Datetime 1704110400123456)) = Inr 1704110400123456000
   \<and> convert_time (Some (Datetime 1704110400123457)) = Inr 1704110400123457024
   \<and> epoch_us (Datetime 1704110400123456) < epoch_us (Datetime 1704110400123457)
   \<and> (1704110400123456000 :: int) < 1704110400123457024
   \<and> (1704110400123456000 :: int) div 1000000000 = epoch_us (Datetime 1704110400123456) div 1000000
   \<and> within_range (Datetime 1704110400000000)
   \<and> epoch_us (Datetime 1704110400000000) mod 1000000 = 0
   \<and> convert_time (Some (Datetime 1704110400000000)) = Inr 1704110400000000000"
proof -
  have r: "within_range (Datetime 1704110400123456)" "within_range (Datetime 1704110400123457)"
    "within_range (Datetime 1704110400000000)"
    by code_simp+
  have c: "convert_time (Some (Datetime 1704110400123456)) = Inr 1704110400123456000"
    "convert_time (Some (Datetime 1704110400123457)) = Inr 1704110400123457024"
    "convert_time (Some (Datetime 1704110400000000)) = Inr 1704110400000000000"
    by code_simp+
  have o: "epoch_us (Datetime 1704110400123456) < epoch_us (Datetime 1704110400123457)"
    "epoch_us (Datetime 1704110400000000) mod 1000000 = 0"
    by simp_all
  from convert_time_monotone_within_range
    [of "Datetime 1704110400123456" "Datetime 1704110400123457"
        1704110400123456000 1704110400123457024] r c o
  have "(1704110400123456000 :: int) < 1704110400123457024"
    "(1704110400123456000 :: int) div 1000000000 = epoch_us (Datetime 1704110400123456) div 1000000"
    by blast+
  with r c o show ?thesis
    by blast
qed

end
